theory Spec2Isabelle
  imports Main "HOL-Library.FSet" "HOL-Library.Char_ord" "HOL-Library.List_Lexorder"
begin

section \<open>Console text: the string methods of Week\_PA2\_sol.py\<close>

text \<open>
  A console line is a \<open>string\<close>; a character stands for the code point of the same
  number (code points below 256). The three Python built-ins the program applies to a
  line are \<open>str.strip()\<close>, \<open>str.lower()\<close> and \<open>int(...)\<close>. They are part of the
  language, not of the repository, and are written out here for these characters. The
  interpreter's limit on the number of digits that \<open>int(...)\<close> accepts (4300 by default
  in recent versions) is left out: integers are unbounded.
\<close>

definition isspace :: "char \<Rightarrow> bool" where
  \<comment> \<open>\<open>str.isspace\<close> on one character: TAB, LF, VT, FF, CR, FS, GS, RS, US, SPACE, NEL, NBSP.\<close>
  "isspace c =
     (let n = (of_char c :: nat)
      in (9 \<le> n \<and> n \<le> 13) \<or> (28 \<le> n \<and> n \<le> 32) \<or> n = 133 \<or> n = 160)"

definition strip :: "string \<Rightarrow> string" where
  \<comment> \<open>\<open>s.strip()\<close>: leading and trailing whitespace removed.\<close>
  "strip s = rev (dropWhile isspace (rev (dropWhile isspace s)))"

definition lower_char :: "char \<Rightarrow> char" where
  "lower_char c =
     (let n = (of_char c :: nat)
      in if (65 \<le> n \<and> n \<le> 90) \<or> (192 \<le> n \<and> n \<le> 222 \<and> n \<noteq> 215)
         then char_of (n + 32) else c)"

definition lower :: "string \<Rightarrow> string" where
  \<comment> \<open>\<open>s.lower()\<close>\<close>
  "lower s = map lower_char s"

definition is_int_space :: "char \<Rightarrow> bool" where
  \<comment> \<open>the whitespace \<open>int(...)\<close> skips around a literal\<close>
  "is_int_space c =
     (let n = (of_char c :: nat)
      in (9 \<le> n \<and> n \<le> 13) \<or> n = 32 \<or> n = 133 \<or> n = 160)"

definition is_digit :: "char \<Rightarrow> bool" where
  "is_digit c = (let n = (of_char c :: nat) in 48 \<le> n \<and> n \<le> 57)"

definition digit_val :: "char \<Rightarrow> nat" where
  "digit_val c = of_char c - 48"

text \<open>
  The digits of a decimal literal: at least one digit, single underscores allowed
  between digits only. \<open>prev\<close> says that the character before was a digit.
\<close>

fun int_digits :: "bool \<Rightarrow> nat \<Rightarrow> string \<Rightarrow> nat option" where
  "int_digits prev acc [] = (if prev then Some acc else None)"
| "int_digits prev acc (c # cs) =
     (if is_digit c then int_digits True (10 * acc + digit_val c) cs
      else if c = CHR ''_'' \<and> prev then int_digits False acc cs
      else None)"

definition py_int :: "string \<Rightarrow> int option" where
  \<comment> \<open>\<open>int(s)\<close>; \<open>None\<close> is the \<open>ValueError\<close>.\<close>
  "py_int s =
     (case rev (dropWhile is_int_space (rev (dropWhile is_int_space s))) of
        [] \<Rightarrow> None
      | c # cs \<Rightarrow>
          if c = CHR ''-'' then map_option (\<lambda>n. - int n) (int_digits False 0 cs)
          else if c = CHR ''+'' then map_option int (int_digits False 0 cs)
          else map_option int (int_digits False 0 (c # cs)))"

section \<open>The store client\<close>

text \<open>
  Modelled from the spec: the store client (redis-py and the server behind it) is an
  external collaborator whose code is not part of the repository. The model follows the
  capability table of the specification: a key names a mathematical set of member
  strings, a key exists exactly when its set has a member, adding reports the number of
  members newly added, removing reports whether the member was present, deleting reports
  whether the key existed, and a flush destroys every key. The store holds sets only, and
  every call succeeds. A member is the same text whether it is held as bytes or as a
  string.
\<close>

type_synonym db = "string \<Rightarrow> string fset"

definition db_exists :: "db \<Rightarrow> string \<Rightarrow> int" where
  \<comment> \<open>Modelled from the spec: \<open>exists(key)\<close>, 1 when the key is present and 0 otherwise.\<close>
  "db_exists d k = (if d k = {||} then 0 else 1)"

definition db_sadd :: "db \<Rightarrow> string \<Rightarrow> string list \<Rightarrow> int \<times> db" where
  \<comment> \<open>Modelled from the spec: \<open>addMembers(key, members)\<close>, the count newly added;
      idempotent on duplicates.\<close>
  "db_sadd d k ms =
     (int (fcard (fset_of_list ms |-| d k)), d(k := d k |\<union>| fset_of_list ms))"

definition db_srem :: "db \<Rightarrow> string \<Rightarrow> string \<Rightarrow> int \<times> db" where
  \<comment> \<open>Modelled from the spec: \<open>removeMember(key, member)\<close>, 1 when the member was present.\<close>
  "db_srem d k m = ((if m |\<in>| d k then 1 else 0), d(k := d k |-| {|m|}))"

definition db_smembers :: "db \<Rightarrow> string \<Rightarrow> string fset" where
  \<comment> \<open>Modelled from the spec: \<open>members(key)\<close>, an unordered set.\<close>
  "db_smembers d k = d k"

definition db_scard :: "db \<Rightarrow> string \<Rightarrow> int" where
  \<comment> \<open>Modelled from the spec: \<open>cardinality(key)\<close>.\<close>
  "db_scard d k = int (fcard (d k))"

definition db_delete :: "db \<Rightarrow> string \<Rightarrow> int \<times> db" where
  \<comment> \<open>Modelled from the spec: \<open>deleteKey(key)\<close>, 1 when the key existed.\<close>
  "db_delete d k = (db_exists d k, d(k := {||}))"

definition db_flushdb :: "db \<Rightarrow> db" where
  \<comment> \<open>Modelled from the spec: \<open>flushAll()\<close> destroys all keys.\<close>
  "db_flushdb d = (\<lambda>k. {||})"

text \<open>
  The order in which a Python \<open>set\<close> yields its members is not fixed by the language: it
  depends on the hash seed of the run and on how the set was built. A run therefore
  carries an arbitrary function \<open>ord\<close> that proposes an order for a set; \<open>set_iteration\<close>
  takes the proposal when it lists the members of the set without repetition, and
  increasing order otherwise. Every list of the members without repetition is the
  iteration of the set for some \<open>ord\<close>, and nothing else is.
\<close>

definition set_iteration :: "(string fset \<Rightarrow> string list) \<Rightarrow> string fset \<Rightarrow> string list" where
  "set_iteration ord s =
     (if distinct (ord s) \<and> fset_of_list (ord s) = s then ord s else sorted_list_of_fset s)"

section \<open>The state of a run\<close>

datatype error = EOFError | ConnectionError

text \<open>The calls issued through the client \<open>r\<close>, in the order they are issued.\<close>

datatype call =
    Ping
  | Exists string
  | SAdd string "string list"
  | SRem string string
  | SMembers string
  | SCard string
  | Delete string
  | FlushDB

text \<open>What is written to the console: one constructor for each prompt and \<open>print\<close>.\<close>

datatype printed =
    Prompt string
  | Msg_enter_ge int                    \<comment> \<open>Please enter a number >= ...\<close>
  | Msg_enter_le int                    \<comment> \<open>Please enter a number <= ...\<close>
  | Msg_invalid_input                   \<comment> \<open>Invalid input. Please enter a whole number.\<close>
  | Msg_connecting
  | Msg_connection_ok
  | Msg_connection_error
  | Msg_key_empty                       \<comment> \<open>Key cannot be empty.\<close>
  | Msg_member_empty_try_again          \<comment> \<open>Member cannot be empty. Try again.\<close>
  | Msg_set_updated string int          \<comment> \<open>Set ... updated. Members added this operation: ...\<close>
  | Msg_cardinality_now int             \<comment> \<open>The cardinality of the set is now: ...\<close>
  | Msg_key_not_exist string            \<comment> \<open>Key ... does not exist.\<close>
  | Msg_members_of string               \<comment> \<open>Members of set ...:\<close>
  | Msg_no_members                      \<comment> \<open>(No members found)\<close>
  | Msg_member string                   \<comment> \<open>- ...\<close>
  | Msg_cardinality int                 \<comment> \<open>The cardinality of the set is: ...\<close>
  | Msg_update_menu                     \<comment> \<open>the five lines of the update menu\<close>
  | Msg_member_empty                    \<comment> \<open>Member cannot be empty.\<close>
  | Msg_added string string             \<comment> \<open>Added member ... to set ...\<close>
  | Msg_already_existed string string   \<comment> \<open>Member ... already existed in set ...\<close>
  | Msg_removed string string           \<comment> \<open>Removed member ... from set ...\<close>
  | Msg_not_found string string         \<comment> \<open>Member ... was not found in set ...\<close>
  | Msg_removing_all                    \<comment> \<open>Removing all set members...\<close>
  | Msg_already_no_members              \<comment> \<open>Set already has no members.\<close>
  | Msg_removing_member string          \<comment> \<open>Removing Member: ......\<close>
  | Msg_exiting_update                  \<comment> \<open>Exiting Update Menu...\<close>
  | Msg_deleted string                  \<comment> \<open>Set ... deleted successfully.\<close>
  | Msg_key_not_found string            \<comment> \<open>Key ... was not found.\<close>
  | Msg_all_deleted                     \<comment> \<open>All data deleted from Redis database (FLUSHDB).\<close>
  | Msg_delete_canceled                 \<comment> \<open>Delete all canceled.\<close>
  | Msg_date_time                       \<comment> \<open>System Date/Time: ...\<close>
  | Msg_main_menu                       \<comment> \<open>the seven lines of the main menu\<close>
  | Msg_exiting_program                 \<comment> \<open>Exiting program...\<close>

record state =
  store :: db                  \<comment> \<open>the contents of the store\<close>
  reachable :: bool            \<comment> \<open>whether the liveness probe at startup succeeds\<close>
  stdin :: "string list"       \<comment> \<open>the console lines not yet read\<close>
  stdout :: "printed list"      \<comment> \<open>everything written so far\<close>
  calls :: "call list"         \<comment> \<open>every store call issued so far\<close>
  set_order :: "call list \<Rightarrow> string fset \<Rightarrow> string list"
    \<comment> \<open>the order proposed for the set a call returns, given the calls issued before it\<close>

definition py_print :: "printed \<Rightarrow> state \<Rightarrow> state" where
  "py_print m st = st\<lparr>stdout := stdout st @ [m]\<rparr>"

definition py_input :: "string \<Rightarrow> state \<Rightarrow> (error + string) \<times> state" where
  \<comment> \<open>\<open>input(prompt)\<close>: writes the prompt, reads one line; \<open>EOFError\<close> when none is left.\<close>
  "py_input prompt st =
     (case stdin st of
        [] \<Rightarrow> (Inl EOFError, py_print (Prompt prompt) st)
      | l # ls \<Rightarrow> (Inr l, (py_print (Prompt prompt) st)\<lparr>stdin := ls\<rparr>))"

definition r_exists :: "string \<Rightarrow> state \<Rightarrow> int \<times> state" where
  "r_exists k st = (db_exists (store st) k, st\<lparr>calls := calls st @ [Exists k]\<rparr>)"

definition r_sadd :: "string \<Rightarrow> string list \<Rightarrow> state \<Rightarrow> int \<times> state" where
  "r_sadd k ms st =
     (fst (db_sadd (store st) k ms),
      st\<lparr>store := snd (db_sadd (store st) k ms), calls := calls st @ [SAdd k ms]\<rparr>)"

definition r_srem :: "string \<Rightarrow> string \<Rightarrow> state \<Rightarrow> int \<times> state" where
  "r_srem k m st =
     (fst (db_srem (store st) k m),
      st\<lparr>store := snd (db_srem (store st) k m), calls := calls st @ [SRem k m]\<rparr>)"

definition r_smembers :: "string \<Rightarrow> state \<Rightarrow> string list \<times> state" where
  \<comment> \<open>the Python set returned, as the list of its members in its iteration order\<close>
  "r_smembers k st =
     (set_iteration (set_order st (calls st)) (db_smembers (store st) k),
      st\<lparr>calls := calls st @ [SMembers k]\<rparr>)"

definition r_scard :: "string \<Rightarrow> state \<Rightarrow> int \<times> state" where
  "r_scard k st = (db_scard (store st) k, st\<lparr>calls := calls st @ [SCard k]\<rparr>)"

definition r_delete :: "string \<Rightarrow> state \<Rightarrow> int \<times> state" where
  "r_delete k st =
     (fst (db_delete (store st) k),
      st\<lparr>store := snd (db_delete (store st) k), calls := calls st @ [Delete k]\<rparr>)"

definition r_flushdb :: "state \<Rightarrow> state" where
  "r_flushdb st = st\<lparr>store := db_flushdb (store st), calls := calls st @ [FlushDB]\<rparr>"

section \<open>Helper functions\<close>

function get_int :: "string \<Rightarrow> int option \<Rightarrow> int option \<Rightarrow> state \<Rightarrow> (error + int) \<times> state" where
  "get_int prompt min_value max_value st =
     (case py_input prompt st of
        (Inl e, st1) \<Rightarrow> (Inl e, st1)
      | (Inr line, st1) \<Rightarrow>
          (case py_int (strip line) of
             None \<Rightarrow> get_int prompt min_value max_value (py_print Msg_invalid_input st1)
           | Some v \<Rightarrow>
               if min_value \<noteq> None \<and> v < the min_value
               then get_int prompt min_value max_value
                      (py_print (Msg_enter_ge (the min_value)) st1)
               else if max_value \<noteq> None \<and> v > the max_value
               then get_int prompt min_value max_value
                      (py_print (Msg_enter_le (the max_value)) st1)
               else (Inr v, st1)))"
  by pat_completeness auto
termination
  by (relation "measure (\<lambda>(p, mn, mx, st). length (stdin st))")
     (auto simp: py_input_def py_print_def split: list.splits)

declare get_int.simps [simp del]

lemma py_print_stdin [simp]: "stdin (py_print m st) = stdin st"
  by (simp add: py_print_def)

lemma py_input_stdin:
  "py_input prompt st = (Inr line, st1) \<Longrightarrow> stdin st = line # stdin st1"
  by (auto simp: py_input_def py_print_def split: list.splits)

lemma py_input_stdin_le: "length (stdin (snd (py_input prompt st))) \<le> length (stdin st)"
  by (auto simp: py_input_def py_print_def split: list.splits)

lemma r_calls_stdin [simp]:
  "stdin (snd (r_exists k st)) = stdin st"
  "stdin (snd (r_sadd k ms st)) = stdin st"
  "stdin (snd (r_srem k m st)) = stdin st"
  "stdin (snd (r_smembers k st)) = stdin st"
  "stdin (snd (r_scard k st)) = stdin st"
  "stdin (snd (r_delete k st)) = stdin st"
  "stdin (r_flushdb st) = stdin st"
  by (simp_all add: r_exists_def r_sadd_def r_srem_def r_smembers_def r_scard_def
        r_delete_def r_flushdb_def)

lemma get_int_stdin_less:
  "get_int prompt mn mx st = (Inr v, st') \<Longrightarrow> length (stdin st') < length (stdin st)"
proof (induction prompt mn mx st rule: get_int.induct)
  case (1 prompt mn mx st)
  show ?case
  proof (cases "py_input prompt st")
    case (Pair res st1)
    show ?thesis
    proof (cases res)
      case (Inl e)
      with Pair "1.prems" show ?thesis by (auto simp add: get_int.simps [where st = st] simp del: not_None_eq)
    next
      case (Inr line)
      with Pair have inp: "py_input prompt st = (Inr line, st1)" by simp
      from py_input_stdin [OF inp] have len: "length (stdin st1) < length (stdin st)" by simp
      show ?thesis
      proof (cases "py_int (strip line)")
        case None
        with inp "1.prems" have "get_int prompt mn mx (py_print Msg_invalid_input st1) = (Inr v, st')"
          by (auto simp add: get_int.simps [where st = st] simp del: not_None_eq)
        from "1.IH"(1) [OF inp [symmetric] refl None this] len show ?thesis by simp
      next
        case (Some x)
        show ?thesis
        proof (cases "mn \<noteq> None \<and> x < the mn")
          case True
          from inp Some True "1.prems"
          have "get_int prompt mn mx (py_print (Msg_enter_ge (the mn)) st1) = (Inr v, st')"
            by (auto simp add: get_int.simps [where st = st] simp del: not_None_eq)
          from "1.IH"(2) [OF inp [symmetric] refl Some True this] len show ?thesis by simp
        next
          case lo: False
          show ?thesis
          proof (cases "mx \<noteq> None \<and> x > the mx")
            case True
            from inp Some lo True "1.prems"
            have "get_int prompt mn mx (py_print (Msg_enter_le (the mx)) st1) = (Inr v, st')"
              by (auto simp add: get_int.simps [where st = st] simp del: not_None_eq)
            from "1.IH"(3) [OF inp [symmetric] refl Some lo True this] len show ?thesis by simp
          next
            case False
            from inp Some lo False "1.prems" have "st' = st1"
              by (auto simp add: get_int.simps [where st = st] simp del: not_None_eq)
            with len show ?thesis by simp
          qed
        qed
      qed
    qed
  qed
qed

section \<open>CRUD operations on sets\<close>

text \<open>
  The \<open>for\<close> loop of \<open>create_new_set\<close>: reads \<open>n\<close> more members; the result \<open>None\<close>
  is the early \<open>return\<close> on an empty member.
\<close>

fun create_new_set_loop ::
  "nat \<Rightarrow> string list \<Rightarrow> state \<Rightarrow> (error + string list option) \<times> state" where
  "create_new_set_loop 0 members st = (Inr (Some members), st)"
| "create_new_set_loop (Suc n) members st =
     (case py_input ''Enter the next member value: '' st of
        (Inl e, st1) \<Rightarrow> (Inl e, st1)
      | (Inr line, st1) \<Rightarrow>
          (let member = strip line
           in if member = [] then (Inr None, py_print Msg_member_empty_try_again st1)
              else create_new_set_loop n (members @ [member]) st1))"

definition create_new_set :: "state \<Rightarrow> (error + unit) \<times> state" where
  "create_new_set st =
     (case py_input ''Enter the key you wish to add: '' st of
        (Inl e, st1) \<Rightarrow> (Inl e, st1)
      | (Inr line, st1) \<Rightarrow>
          (let key = strip line
           in if key = [] then (Inr (), py_print Msg_key_empty st1)
              else
                (case get_int ''Enter how many members will this set have: '' (Some 1) None st1 of
                   (Inl e, st2) \<Rightarrow> (Inl e, st2)
                 | (Inr count, st2) \<Rightarrow>
                     (case create_new_set_loop (nat count) [] st2 of
                        (Inl e, st3) \<Rightarrow> (Inl e, st3)
                      | (Inr None, st3) \<Rightarrow> (Inr (), st3)
                      | (Inr (Some members), st3) \<Rightarrow>
                          (let (added, st4) = r_sadd key members st3;
                               st5 = py_print (Msg_set_updated key added) st4;
                               (card, st6) = r_scard key st5
                           in (Inr (), py_print (Msg_cardinality_now card) st6))))))"

definition format_members :: "string list \<Rightarrow> string list" where
  \<comment> \<open>one string for each member, in iteration order; decoding a member's bytes gives back its text\<close>
  "format_members members = map (\<lambda>m. m) members"

definition retrieve_set_members :: "state \<Rightarrow> (error + unit) \<times> state" where
  "retrieve_set_members st =
     (case py_input ''Enter the key you wish to query: '' st of
        (Inl e, st1) \<Rightarrow> (Inl e, st1)
      | (Inr line, st1) \<Rightarrow>
          (let key = strip line
           in if key = [] then (Inr (), py_print Msg_key_empty st1)
              else
                (let (ex, st2) = r_exists key st1
                 in if ex = 0 then (Inr (), py_print (Msg_key_not_exist key) st2)
                    else
                      (let (members, st3) = r_smembers key st2;
                           members_list = format_members members;
                           st4 = py_print (Msg_members_of key) st3;
                           st5 = (if length members_list = 0 then py_print Msg_no_members st4
                                  else fold (\<lambda>m. py_print (Msg_member m)) members_list st4);
                           (card, st6) = r_scard key st5
                       in (Inr (), py_print (Msg_cardinality card) st6)))))"

text \<open>The \<open>for\<close> loop of choice 3: one remove call for each member of the snapshot.\<close>

fun remove_each :: "string \<Rightarrow> string list \<Rightarrow> state \<Rightarrow> state" where
  "remove_each key [] st = st"
| "remove_each key (m # ms) st =
     remove_each key ms (snd (r_srem key m (py_print (Msg_removing_member m) st)))"

lemma remove_each_stdin [simp]: "stdin (remove_each key ms st) = stdin st"
  by (induction ms arbitrary: st) simp_all

text \<open>
  The \<open>while True\<close> loops are modelled as a body that says how it was left (by
  \<open>break\<close>, or by \<open>continue\<close> or its end) and a function that repeats the body.
\<close>

datatype loop_exit = Continue | Break

text \<open>The three branches of the update menu that reach the store.\<close>

definition update_add_member :: "string \<Rightarrow> state \<Rightarrow> (error + loop_exit) \<times> state" where
  \<comment> \<open>\<open>if choice == 1\<close>\<close>
  "update_add_member key st1 =
     (case py_input ''Enter the member value to add: '' st1 of
        (Inl e, st2) \<Rightarrow> (Inl e, st2)
      | (Inr line, st2) \<Rightarrow>
          (let member = strip line
           in if member = [] then (Inr Continue, py_print Msg_member_empty st2)
              else
                (let (added, st3) = r_sadd key [member] st2;
                     st4 = (if added = 1 then py_print (Msg_added member key) st3
                            else py_print (Msg_already_existed member key) st3);
                     (card, st5) = r_scard key st4
                 in (Inr Continue, py_print (Msg_cardinality_now card) st5))))"

definition update_remove_member :: "string \<Rightarrow> state \<Rightarrow> (error + loop_exit) \<times> state" where
  \<comment> \<open>\<open>elif choice == 2\<close>\<close>
  "update_remove_member key st1 =
     (case py_input ''Enter the member value to remove: '' st1 of
        (Inl e, st2) \<Rightarrow> (Inl e, st2)
      | (Inr line, st2) \<Rightarrow>
          (let member = strip line
           in if member = [] then (Inr Continue, py_print Msg_member_empty st2)
              else
                (let (removed, st3) = r_srem key member st2;
                     st4 = (if removed = 1 then py_print (Msg_removed member key) st3
                            else py_print (Msg_not_found member key) st3);
                     (card, st5) = r_scard key st4
                 in (Inr Continue, py_print (Msg_cardinality_now card) st5))))"

definition update_remove_all :: "string \<Rightarrow> state \<Rightarrow> (error + loop_exit) \<times> state" where
  \<comment> \<open>\<open>elif choice == 3\<close>\<close>
  "update_remove_all key st1 =
     (let st2 = py_print Msg_removing_all st1;
          (members, st3) = r_smembers key st2;
          st4 = (if members = [] then py_print Msg_already_no_members st3
                 else remove_each key members st3);
          (card, st5) = r_scard key st4
      in (Inr Continue, py_print (Msg_cardinality_now card) st5))"

definition update_set_members_body :: "string \<Rightarrow> state \<Rightarrow> (error + loop_exit) \<times> state" where
  "update_set_members_body key st =
     (case get_int ''Selection: '' (Some 1) (Some 4) (py_print Msg_update_menu st) of
        (Inl e, st1) \<Rightarrow> (Inl e, st1)
      | (Inr choice, st1) \<Rightarrow>
          if choice = 1 then update_add_member key st1
          else if choice = 2 then update_remove_member key st1
          else if choice = 3 then update_remove_all key st1
          else if choice = 4 then (Inr Break, py_print Msg_exiting_update st1)
          else (Inr Continue, st1))"

lemma update_add_member_stdin_le:
  "length (stdin (snd (update_add_member key st))) \<le> length (stdin st)"
  by (cases "stdin st")
     (auto simp: update_add_member_def py_input_def Let_def r_sadd_def r_scard_def
           split: prod.splits)

lemma update_remove_member_stdin_le:
  "length (stdin (snd (update_remove_member key st))) \<le> length (stdin st)"
  by (cases "stdin st")
     (auto simp: update_remove_member_def py_input_def Let_def r_srem_def r_scard_def
           split: prod.splits)

lemma update_remove_all_stdin_le:
  "length (stdin (snd (update_remove_all key st))) \<le> length (stdin st)"
  by (auto simp: update_remove_all_def Let_def r_smembers_def r_scard_def split: prod.splits)

lemma update_set_members_body_stdin_less:
  assumes "update_set_members_body key st = (Inr x, st')"
  shows "length (stdin st') < length (stdin st)"
proof -
  let ?g = "get_int ''Selection: '' (Some 1) (Some 4) (py_print Msg_update_menu st)"
  obtain res st1 where g: "?g = (res, st1)" by (cases ?g)
  show ?thesis
  proof (cases res)
    case (Inl e)
    with g assms show ?thesis by (simp add: update_set_members_body_def)
  next
    case (Inr choice)
    with g get_int_stdin_less [of "''Selection: ''" "Some 1" "Some 4" "py_print Msg_update_menu st" choice st1]
    have lt: "length (stdin st1) < length (stdin st)" by simp
    from g Inr assms
    have "length (stdin st') \<le> length (stdin st1)"
      using update_add_member_stdin_le [of key st1] update_remove_member_stdin_le [of key st1]
        update_remove_all_stdin_le [of key st1]
      by (auto simp: update_set_members_body_def split: if_splits)
    with lt show ?thesis by simp
  qed
qed

function update_set_members_loop :: "string \<Rightarrow> state \<Rightarrow> (error + unit) \<times> state" where
  "update_set_members_loop key st =
     (case update_set_members_body key st of
        (Inl e, st') \<Rightarrow> (Inl e, st')
      | (Inr Break, st') \<Rightarrow> (Inr (), st')
      | (Inr Continue, st') \<Rightarrow> update_set_members_loop key st')"
  by pat_completeness auto
termination
  by (relation "measure (\<lambda>(key, st). length (stdin st))")
     (auto dest!: update_set_members_body_stdin_less [OF sym])

declare update_set_members_loop.simps [simp del]

definition update_set_members :: "state \<Rightarrow> (error + unit) \<times> state" where
  "update_set_members st =
     (case py_input ''Enter the key of the set you wish to update: '' st of
        (Inl e, st1) \<Rightarrow> (Inl e, st1)
      | (Inr line, st1) \<Rightarrow>
          (let key = strip line
           in if key = [] then (Inr (), py_print Msg_key_empty st1)
              else
                (let (ex, st2) = r_exists key st1
                 in if ex = 0 then (Inr (), py_print (Msg_key_not_exist key) st2)
                    else update_set_members_loop key st2)))"

definition delete_set :: "state \<Rightarrow> (error + unit) \<times> state" where
  "delete_set st =
     (case py_input ''Enter the key of the set you wish to delete: '' st of
        (Inl e, st1) \<Rightarrow> (Inl e, st1)
      | (Inr line, st1) \<Rightarrow>
          (let key = strip line
           in if key = [] then (Inr (), py_print Msg_key_empty st1)
              else
                (let (deleted, st2) = r_delete key st1
                 in if deleted = 1 then (Inr (), py_print (Msg_deleted key) st2)
                    else (Inr (), py_print (Msg_key_not_found key) st2))))"

definition delete_all_data :: "state \<Rightarrow> (error + unit) \<times> state" where
  "delete_all_data st =
     (case py_input
             ''Are you sure you want to delete ALL data from the database? (y/n): '' st of
        (Inl e, st1) \<Rightarrow> (Inl e, st1)
      | (Inr line, st1) \<Rightarrow>
          (let confirm = lower (strip line)
           in if confirm = ''y'' then (Inr (), py_print Msg_all_deleted (r_flushdb st1))
              else (Inr (), py_print Msg_delete_canceled st1)))"

definition connect_to_redis :: "state \<Rightarrow> (error + unit) \<times> state" where
  "connect_to_redis st =
     (let st1 = py_print Msg_connecting st;
          st2 = st1\<lparr>calls := calls st1 @ [Ping]\<rparr>
      in if reachable st2 then (Inr (), py_print Msg_connection_ok st2)
         else (Inl ConnectionError, py_print Msg_connection_error st2))"

section \<open>Facts about the readers, used for the termination of the menu loop\<close>

lemma get_int_Nil:
  "stdin st = [] \<Longrightarrow> get_int p mn mx st = (Inl EOFError, py_print (Prompt p) st)"
  by (simp add: get_int.simps [where st = st] py_input_def)

lemma get_int_Cons:
  "stdin st = l # ls \<Longrightarrow>
   get_int p mn mx st =
     (case py_int (strip l) of
        None \<Rightarrow> get_int p mn mx (py_print Msg_invalid_input ((py_print (Prompt p) st)\<lparr>stdin := ls\<rparr>))
      | Some v \<Rightarrow>
          if mn \<noteq> None \<and> v < the mn
          then get_int p mn mx (py_print (Msg_enter_ge (the mn)) ((py_print (Prompt p) st)\<lparr>stdin := ls\<rparr>))
          else if mx \<noteq> None \<and> v > the mx
          then get_int p mn mx (py_print (Msg_enter_le (the mx)) ((py_print (Prompt p) st)\<lparr>stdin := ls\<rparr>))
          else (Inr v, (py_print (Prompt p) st)\<lparr>stdin := ls\<rparr>))"
  by (simp add: get_int.simps [where st = st] py_input_def del: not_None_eq)

lemma get_int_stdin_le: "length (stdin (snd (get_int p mn mx st))) \<le> length (stdin st)"
proof (induction "stdin st" arbitrary: st)
  case Nil
  then show ?case by (simp add: get_int_Nil)
next
  case (Cons l ls)
  have a: "ls = stdin (py_print m ((py_print (Prompt p) st)\<lparr>stdin := ls\<rparr>))" for m
    by simp
  have "length (stdin (snd (get_int p mn mx (py_print m ((py_print (Prompt p) st)\<lparr>stdin := ls\<rparr>)))))
          \<le> length ls" for m
    using Cons(1) [OF a [of m]] by simp
  with Cons(2) [symmetric] show ?case
    by (simp add: get_int_Cons [of st l ls] le_SucI split: option.splits del: not_None_eq)
qed

lemma create_new_set_loop_stdin_le:
  "length (stdin (snd (create_new_set_loop n members st))) \<le> length (stdin st)"
proof (induction n arbitrary: members st)
  case 0
  show ?case by simp
next
  case (Suc n)
  show ?case
  proof (cases "stdin st")
    case Nil
    then show ?thesis by (simp add: py_input_def)
  next
    case (Cons l ls)
    with Suc [of "members @ [strip l]" "(py_print (Prompt ''Enter the next member value: '') st)\<lparr>stdin := ls\<rparr>"]
    show ?thesis by (simp add: py_input_def Let_def le_SucI)
  qed
qed

lemma create_new_set_stdin_le: "length (stdin (snd (create_new_set st))) \<le> length (stdin st)"
proof (cases "stdin st")
  case Nil
  then show ?thesis by (simp add: create_new_set_def py_input_def)
next
  case (Cons l ls)
  let ?st1 = "(py_print (Prompt ''Enter the key you wish to add: '') st)\<lparr>stdin := ls\<rparr>"
  let ?g = "get_int ''Enter how many members will this set have: '' (Some 1) None ?st1"
  have g: "length (stdin (snd ?g)) \<le> length ls"
    using get_int_stdin_le [of "''Enter how many members will this set have: ''" "Some 1" None ?st1]
    by simp
  have l: "length (stdin (snd (create_new_set_loop n [] (snd ?g)))) \<le> length ls" for n
    using create_new_set_loop_stdin_le [of n "[]" "snd ?g"] g by simp
  show ?thesis
  proof (cases ?g)
    case (Pair res st2)
    with g l [of "nat (projr res)"] Cons show ?thesis
      by (cases res)
         (auto simp: create_new_set_def py_input_def Let_def r_sadd_def r_scard_def
               split: prod.splits sum.splits option.splits)
  qed
qed

lemma fold_print_stdin [simp]: "stdin (fold (\<lambda>m. py_print (f m)) ms st) = stdin st"
  by (induction ms arbitrary: st) simp_all

lemma retrieve_set_members_stdin_le:
  "length (stdin (snd (retrieve_set_members st))) \<le> length (stdin st)"
  by (cases "stdin st")
     (auto simp: retrieve_set_members_def py_input_def Let_def r_exists_def r_smembers_def
           r_scard_def split: prod.splits)

lemma delete_set_stdin_le: "length (stdin (snd (delete_set st))) \<le> length (stdin st)"
  by (cases "stdin st")
     (auto simp: delete_set_def py_input_def Let_def r_delete_def split: prod.splits)

lemma delete_all_data_stdin_le: "length (stdin (snd (delete_all_data st))) \<le> length (stdin st)"
  by (cases "stdin st") (auto simp: delete_all_data_def py_input_def Let_def)

lemma update_set_members_body_stdin_le:
  "length (stdin (snd (update_set_members_body key st))) \<le> length (stdin st)"
proof (cases "update_set_members_body key st")
  case (Pair res st')
  show ?thesis
  proof (cases res)
    case (Inl e)
    with Pair show ?thesis
      using get_int_stdin_le [of "''Selection: ''" "Some 1" "Some 4" "py_print Msg_update_menu st"]
        get_int_stdin_less [of "''Selection: ''" "Some 1" "Some 4" "py_print Msg_update_menu st"]
        update_add_member_stdin_le [of key] update_remove_member_stdin_le [of key]
        update_remove_all_stdin_le [of key]
      apply (auto simp: update_set_members_body_def split: prod.splits sum.splits if_splits)
      apply (metis le_trans less_imp_le_nat snd_conv)+
      done
  next
    case (Inr x)
    with Pair update_set_members_body_stdin_less [of key st x st'] show ?thesis by simp
  qed
qed

lemma update_set_members_loop_stdin_le:
  "length (stdin (snd (update_set_members_loop key st))) \<le> length (stdin st)"
proof (induction key st rule: update_set_members_loop.induct)
  case (1 key st)
  obtain res st' where b: "update_set_members_body key st = (res, st')"
    by (cases "update_set_members_body key st")
  from update_set_members_body_stdin_le [of key st] b
  have le: "length (stdin st') \<le> length (stdin st)" by simp
  show ?case
  proof (cases res)
    case (Inl e)
    with b le show ?thesis by (simp add: update_set_members_loop.simps [where st = st])
  next
    case (Inr x)
    show ?thesis
    proof (cases x)
      case Continue
      with "1.IH" [OF b [symmetric] Inr Continue] b Inr le show ?thesis
        by (simp add: update_set_members_loop.simps [where st = st])
    next
      case Break
      with b Inr le show ?thesis by (simp add: update_set_members_loop.simps [where st = st])
    qed
  qed
qed

lemma update_set_members_stdin_le:
  "length (stdin (snd (update_set_members st))) \<le> length (stdin st)"
proof (cases "stdin st")
  case Nil
  then show ?thesis by (simp add: update_set_members_def py_input_def)
next
  case (Cons l ls)
  have "length (stdin (snd (update_set_members_loop key st'))) \<le> length ls"
    if "stdin st' = ls" for key st'
    using update_set_members_loop_stdin_le [of key st'] that by simp
  with Cons show ?thesis
    by (auto simp: update_set_members_def py_input_def Let_def r_exists_def le_SucI
             split: prod.splits)
qed

section \<open>Main menu loop\<close>

definition main_body :: "state \<Rightarrow> (error + loop_exit) \<times> state" where
  "main_body st =
     (case get_int ''Selection: '' (Some 1) (Some 6) (py_print Msg_main_menu st) of
        (Inl e, st1) \<Rightarrow> (Inl e, st1)
      | (Inr selection, st1) \<Rightarrow>
          if selection = 1 then
            (case retrieve_set_members st1 of
               (Inl e, st2) \<Rightarrow> (Inl e, st2) | (Inr u, st2) \<Rightarrow> (Inr Continue, st2))
          else if selection = 2 then
            (case create_new_set st1 of
               (Inl e, st2) \<Rightarrow> (Inl e, st2) | (Inr u, st2) \<Rightarrow> (Inr Continue, st2))
          else if selection = 3 then
            (case update_set_members st1 of
               (Inl e, st2) \<Rightarrow> (Inl e, st2) | (Inr u, st2) \<Rightarrow> (Inr Continue, st2))
          else if selection = 4 then
            (case delete_set st1 of
               (Inl e, st2) \<Rightarrow> (Inl e, st2) | (Inr u, st2) \<Rightarrow> (Inr Continue, st2))
          else if selection = 5 then
            (case delete_all_data st1 of
               (Inl e, st2) \<Rightarrow> (Inl e, st2) | (Inr u, st2) \<Rightarrow> (Inr Continue, st2))
          else if selection = 6 then (Inr Break, py_print Msg_exiting_program st1)
          else (Inr Continue, st1))"

lemma main_body_stdin_less:
  assumes "main_body st = (Inr x, st')"
  shows "length (stdin st') < length (stdin st)"
proof -
  let ?g = "get_int ''Selection: '' (Some 1) (Some 6) (py_print Msg_main_menu st)"
  obtain res st1 where g: "?g = (res, st1)" by (cases ?g)
  show ?thesis
  proof (cases res)
    case (Inl e)
    with g assms show ?thesis by (simp add: main_body_def)
  next
    case (Inr selection)
    with g get_int_stdin_less [of "''Selection: ''" "Some 1" "Some 6" "py_print Msg_main_menu st" selection st1]
    have lt: "length (stdin st1) < length (stdin st)" by simp
    from g Inr assms
    have "length (stdin st') \<le> length (stdin st1)"
      using retrieve_set_members_stdin_le [of st1] create_new_set_stdin_le [of st1]
        update_set_members_stdin_le [of st1] delete_set_stdin_le [of st1]
        delete_all_data_stdin_le [of st1]
      by (auto simp: main_body_def split: if_splits prod.splits sum.splits)
    with lt show ?thesis by simp
  qed
qed

function main_loop :: "state \<Rightarrow> (error + unit) \<times> state" where
  "main_loop st =
     (case main_body st of
        (Inl e, st') \<Rightarrow> (Inl e, st')
      | (Inr Break, st') \<Rightarrow> (Inr (), st')
      | (Inr Continue, st') \<Rightarrow> main_loop st')"
  by pat_completeness auto
termination
  by (relation "measure (\<lambda>st. length (stdin st))")
     (auto dest!: main_body_stdin_less [OF sym])

declare main_loop.simps [simp del]

definition main :: "state \<Rightarrow> (error + unit) \<times> state" where
  "main st =
     (case connect_to_redis (py_print Msg_date_time st) of
        (Inl e, st1) \<Rightarrow> (Inl e, st1)
      | (Inr u, st1) \<Rightarrow> main_loop st1)"

section \<open>What a run of the bounded-integer reader looks like\<close>

text \<open>
  A line is acceptable to \<open>get_int\<close> when it parses as an integer within the bounds
  given; otherwise the reader prints the message \<open>reject_msg\<close> and prompts again.
\<close>

definition acceptable :: "int option \<Rightarrow> int option \<Rightarrow> string \<Rightarrow> bool" where
  "acceptable mn mx l =
     (case py_int (strip l) of
        None \<Rightarrow> False
      | Some v \<Rightarrow> \<not> (mn \<noteq> None \<and> v < the mn) \<and> \<not> (mx \<noteq> None \<and> v > the mx))"

definition reject_msg :: "int option \<Rightarrow> int option \<Rightarrow> string \<Rightarrow> printed" where
  "reject_msg mn mx l =
     (case py_int (strip l) of
        None \<Rightarrow> Msg_invalid_input
      | Some v \<Rightarrow> if mn \<noteq> None \<and> v < the mn then Msg_enter_ge (the mn)
                  else Msg_enter_le (the mx))"

definition rejections :: "string \<Rightarrow> int option \<Rightarrow> int option \<Rightarrow> string list \<Rightarrow> printed list" where
  "rejections p mn mx bad = concat (map (\<lambda>b. [Prompt p, reject_msg mn mx b]) bad)"

text \<open>
  Concrete runs: a console session against a store that holds no key, in a run whose sets
  yield red before green before blue.
\<close>

definition palette_order :: "string fset \<Rightarrow> string list" where
  "palette_order s = filter (\<lambda>m. m |\<in>| s) [''red'', ''green'', ''blue'', ''xl'', []]"

definition empty_store :: db where
  "empty_store = (\<lambda>k. {||})"

definition console :: "string list \<Rightarrow> state" where
  "console ls =
     \<lparr>store = empty_store, reachable = True, stdin = ls, stdout = [], calls = [],
      set_order = (\<lambda>cs. palette_order)\<rparr>"

lemmas text_defs = py_int_def strip_def isspace_def is_int_space_def is_digit_def digit_val_def
  lower_def lower_char_def acceptable_def reject_msg_def rejections_def

lemma get_int_accept:
  "stdin st = l # ls \<Longrightarrow> acceptable mn mx l \<Longrightarrow>
   get_int p mn mx st =
     (Inr (the (py_int (strip l))), st\<lparr>stdin := ls, stdout := stdout st @ [Prompt p]\<rparr>)"
  by (auto simp: get_int_Cons [of st l ls] acceptable_def py_print_def
           simp del: not_None_eq split: option.splits)

lemma get_int_reject:
  "stdin st = l # ls \<Longrightarrow> \<not> acceptable mn mx l \<Longrightarrow>
   get_int p mn mx st =
     get_int p mn mx (st\<lparr>stdin := ls, stdout := stdout st @ [Prompt p, reject_msg mn mx l]\<rparr>)"
  by (auto simp: get_int_Cons [of st l ls] acceptable_def reject_msg_def py_print_def
           simp del: not_None_eq split: option.splits)

lemma get_int_run:
  "stdin st = bad @ l # rest \<Longrightarrow> \<forall>b\<in>set bad. \<not> acceptable mn mx b \<Longrightarrow> acceptable mn mx l \<Longrightarrow>
   get_int p mn mx st =
     (Inr (the (py_int (strip l))),
      st\<lparr>stdin := rest, stdout := stdout st @ rejections p mn mx bad @ [Prompt p]\<rparr>)"
proof (induction bad arbitrary: st)
  case Nil
  then show ?case by (simp add: get_int_accept rejections_def)
next
  case (Cons b bad)
  from Cons.prems have s: "stdin st = b # (bad @ l # rest)" and nb: "\<not> acceptable mn mx b"
    by simp_all
  let ?st = "st\<lparr>stdin := bad @ l # rest, stdout := stdout st @ [Prompt p, reject_msg mn mx b]\<rparr>"
  have "get_int p mn mx st = get_int p mn mx ?st" by (rule get_int_reject [OF s nb])
  also have "\<dots> = (Inr (the (py_int (strip l))),
      ?st\<lparr>stdin := rest, stdout := stdout ?st @ rejections p mn mx bad @ [Prompt p]\<rparr>)"
    using Cons.prems by (intro Cons.IH) simp_all
  finally show ?case by (simp add: rejections_def)
qed

lemma get_int_all_bad:
  "\<forall>b\<in>set (stdin st). \<not> acceptable mn mx b \<Longrightarrow>
   get_int p mn mx st =
     (Inl EOFError,
      st\<lparr>stdin := [], stdout := stdout st @ rejections p mn mx (stdin st) @ [Prompt p]\<rparr>)"
proof (induction "stdin st" arbitrary: st)
  case Nil
  then show ?case by (simp add: get_int_Nil rejections_def py_print_def)
next
  case (Cons b bad)
  from Cons.hyps(2) [symmetric] Cons.prems
  have s: "stdin st = b # bad" and nb: "\<not> acceptable mn mx b" by simp_all
  let ?st = "st\<lparr>stdin := bad, stdout := stdout st @ [Prompt p, reject_msg mn mx b]\<rparr>"
  have "get_int p mn mx st = get_int p mn mx ?st" by (rule get_int_reject [OF s nb])
  also have "\<dots> = (Inl EOFError,
      ?st\<lparr>stdin := [], stdout := stdout ?st @ rejections p mn mx (stdin ?st) @ [Prompt p]\<rparr>)"
    using Cons.prems s by (intro Cons.hyps(1)) simp_all
  finally show ?case using s by (simp add: rejections_def)
qed

lemma get_int_Inr_run:
  assumes "get_int p mn mx st = (Inr v, st')"
  shows "\<exists>bad l. stdin st = bad @ l # stdin st' \<and> (\<forall>b\<in>set bad. \<not> acceptable mn mx b) \<and>
           acceptable mn mx l \<and> py_int (strip l) = Some v \<and>
           st' = st\<lparr>stdin := stdin st', stdout := stdout st @ rejections p mn mx bad @ [Prompt p]\<rparr>"
proof (cases "\<forall>b\<in>set (stdin st). \<not> acceptable mn mx b")
  case True
  from get_int_all_bad [OF True, of p] assms show ?thesis by simp
next
  case False
  then have "\<exists>x\<in>set (stdin st). acceptable mn mx x" by simp
  from split_list_first_prop [OF this]
  obtain bad l rest where s: "stdin st = bad @ l # rest" and acc: "acceptable mn mx l"
    and bad: "\<forall>b\<in>set bad. \<not> acceptable mn mx b" by blast
  from get_int_run [OF s bad acc, of p] assms
  have v: "v = the (py_int (strip l))"
    and st': "st' = st\<lparr>stdin := rest, stdout := stdout st @ rejections p mn mx bad @ [Prompt p]\<rparr>"
    by simp_all
  from acc v have "py_int (strip l) = Some v" by (auto simp: acceptable_def split: option.splits)
  with s acc bad st' show ?thesis by (intro exI [of _ bad] exI [of _ l]) simp
qed

lemma main_loop_select:
  assumes "stdin st = bad @ l # rest"
    and "\<forall>b\<in>set bad. \<not> acceptable (Some 1) (Some 6) b"
    and "py_int (strip l) = Some sel" and "1 \<le> sel" and "sel \<le> 6"
  shows "main_loop st =
     (let st1 = st\<lparr>stdin := rest,
                    stdout := stdout st @ [Msg_main_menu] @
                      rejections ''Selection: '' (Some 1) (Some 6) bad @ [Prompt ''Selection: '']\<rparr>
      in if sel = 6 then (Inr (), py_print Msg_exiting_program st1)
         else (case (if sel = 1 then retrieve_set_members st1
                     else if sel = 2 then create_new_set st1
                     else if sel = 3 then update_set_members st1
                     else if sel = 4 then delete_set st1
                     else delete_all_data st1) of
                 (Inl e, st2) \<Rightarrow> (Inl e, st2)
               | (Inr u, st2) \<Rightarrow> main_loop st2))"
proof -
  have s: "stdin (py_print Msg_main_menu st) = bad @ l # rest" using assms(1) by simp
  have a: "acceptable (Some 1) (Some 6) l" using assms(3,4,5) by (simp add: acceptable_def)
  from get_int_run [OF s assms(2) a, of "''Selection: ''"] assms(3)
  have g: "get_int ''Selection: '' (Some 1) (Some 6) (py_print Msg_main_menu st) =
      (Inr sel,
       st\<lparr>stdin := rest,
          stdout := stdout st @ [Msg_main_menu] @
            rejections ''Selection: '' (Some 1) (Some 6) bad @ [Prompt ''Selection: '']\<rparr>)"
    by (simp add: py_print_def)
  from assms(4,5) consider "sel = 1" | "sel = 2" | "sel = 3" | "sel = 4" | "sel = 5" | "sel = 6"
    by linarith
  then show ?thesis
    by cases
       (simp_all add: main_loop.simps [where st = st] main_body_def g Let_def
          split: prod.splits sum.splits loop_exit.splits)
qed

lemma main_loop_all_bad_run:
  assumes "\<forall>b\<in>set (stdin st). \<not> acceptable (Some 1) (Some 6) b"
  shows "main_loop st =
     (Inl EOFError,
      st\<lparr>stdin := [],
         stdout := stdout st @ [Msg_main_menu] @
           rejections ''Selection: '' (Some 1) (Some 6) (stdin st) @ [Prompt ''Selection: '']\<rparr>)"
proof -
  have "\<forall>b\<in>set (stdin (py_print Msg_main_menu st)). \<not> acceptable (Some 1) (Some 6) b"
    using assms by simp
  from get_int_all_bad [OF this, of "''Selection: ''"]
  show ?thesis by (simp add: main_loop.simps [where st = st] main_body_def py_print_def)
qed

text \<open>
  C8. Whenever \<open>get_int\<close> returns a value, the value satisfies every bound supplied and
  is the integer of the first acceptable line. A line that is not an acceptable integer
  never makes the reader return: the reader answers it with its message and prompts
  again, so after any number of such lines it returns the integer of the next acceptable
  line, and it ends with the \<open>EOFError\<close> of the exhausted console, every line read and
  answered, when there is none. The menu loop of \<open>main\<close> does not end on such lines either:
  it dispatches on the next acceptable selection as if they had not been entered, apart
  from the messages printed, or ends with that \<open>EOFError\<close>.
\<close>

theorem get_int_returns_valid:
  "(get_int p mn mx st = (Inr v, st') \<longrightarrow>
      (\<forall>m. mn = Some m \<longrightarrow> m \<le> v) \<and> (\<forall>m. mx = Some m \<longrightarrow> v \<le> m) \<and>
      (\<exists>bad l. stdin st = bad @ l # stdin st' \<and> (\<forall>b\<in>set bad. \<not> acceptable mn mx b) \<and>
         py_int (strip l) = Some v \<and>
         stdout st' = stdout st @ rejections p mn mx bad @ [Prompt p]))
   \<and> (stdin st = l # rest \<and> \<not> acceptable mn mx l \<longrightarrow>
        get_int p mn mx st =
          get_int p mn mx (st\<lparr>stdin := rest, stdout := stdout st @ [Prompt p, reject_msg mn mx l]\<rparr>))
   \<and> (stdin st = bad @ l # rest \<and> (\<forall>b\<in>set bad. \<not> acceptable mn mx b) \<and> acceptable mn mx l \<longrightarrow>
        get_int p mn mx st =
          (Inr (the (py_int (strip l))),
           st\<lparr>stdin := rest, stdout := stdout st @ rejections p mn mx bad @ [Prompt p]\<rparr>))
   \<and> ((\<forall>b\<in>set (stdin st). \<not> acceptable mn mx b) \<longrightarrow>
        get_int p mn mx st =
          (Inl EOFError,
           st\<lparr>stdin := [], stdout := stdout st @ rejections p mn mx (stdin st) @ [Prompt p]\<rparr>))
   \<and> (stdin st = bad @ l # rest \<and> (\<forall>b\<in>set bad. \<not> acceptable (Some 1) (Some 6) b) \<and>
       py_int (strip l) = Some sel \<and> 1 \<le> sel \<and> sel \<le> 6 \<longrightarrow>
        main_loop st =
          (let st1 = st\<lparr>stdin := rest,
                         stdout := stdout st @ [Msg_main_menu] @
                           rejections ''Selection: '' (Some 1) (Some 6) bad @
                           [Prompt ''Selection: '']\<rparr>
           in if sel = 6 then (Inr (), py_print Msg_exiting_program st1)
              else (case (if sel = 1 then retrieve_set_members st1
                          else if sel = 2 then create_new_set st1
                          else if sel = 3 then update_set_members st1
                          else if sel = 4 then delete_set st1
                          else delete_all_data st1) of
                      (Inl e, st2) \<Rightarrow> (Inl e, st2)
                    | (Inr u, st2) \<Rightarrow> main_loop st2)))
   \<and> ((\<forall>b\<in>set (stdin st). \<not> acceptable (Some 1) (Some 6) b) \<longrightarrow>
        main_loop st =
          (Inl EOFError,
           st\<lparr>stdin := [],
              stdout := stdout st @ [Msg_main_menu] @
                rejections ''Selection: '' (Some 1) (Some 6) (stdin st) @
                [Prompt ''Selection: '']\<rparr>))"
proof (intro conjI impI; (elim conjE)?)
  assume g: "get_int p mn mx st = (Inr v, st')"
  from get_int_Inr_run [OF g]
  obtain bad l where s: "stdin st = bad @ l # stdin st'"
    and bad: "\<forall>b\<in>set bad. \<not> acceptable mn mx b"
    and acc: "acceptable mn mx l" and v: "py_int (strip l) = Some v"
    and st': "st' = st\<lparr>stdin := stdin st', stdout := stdout st @ rejections p mn mx bad @ [Prompt p]\<rparr>"
    by blast
  from acc v show "\<forall>m. mn = Some m \<longrightarrow> m \<le> v" by (auto simp: acceptable_def)
  from acc v show "\<forall>m. mx = Some m \<longrightarrow> v \<le> m" by (auto simp: acceptable_def)
  have "stdout st' = stdout st @ rejections p mn mx bad @ [Prompt p]"
    by (subst st') simp
  with s bad v
  show "\<exists>bad l. stdin st = bad @ l # stdin st' \<and> (\<forall>b\<in>set bad. \<not> acceptable mn mx b) \<and>
         py_int (strip l) = Some v \<and>
         stdout st' = stdout st @ rejections p mn mx bad @ [Prompt p]"
    by blast
next
  assume "stdin st = l # rest" and "\<not> acceptable mn mx l"
  then show "get_int p mn mx st =
          get_int p mn mx (st\<lparr>stdin := rest, stdout := stdout st @ [Prompt p, reject_msg mn mx l]\<rparr>)"
    by (rule get_int_reject)
next
  assume "stdin st = bad @ l # rest" and "\<forall>b\<in>set bad. \<not> acceptable mn mx b"
    and "acceptable mn mx l"
  then show "get_int p mn mx st =
          (Inr (the (py_int (strip l))),
           st\<lparr>stdin := rest, stdout := stdout st @ rejections p mn mx bad @ [Prompt p]\<rparr>)"
    by (rule get_int_run)
next
  assume "\<forall>b\<in>set (stdin st). \<not> acceptable mn mx b"
  then show "get_int p mn mx st =
          (Inl EOFError,
           st\<lparr>stdin := [], stdout := stdout st @ rejections p mn mx (stdin st) @ [Prompt p]\<rparr>)"
    by (rule get_int_all_bad)
next
  assume "stdin st = bad @ l # rest" and "\<forall>b\<in>set bad. \<not> acceptable (Some 1) (Some 6) b"
    and "py_int (strip l) = Some sel" and "1 \<le> sel" and "sel \<le> 6"
  then show "main_loop st =
          (let st1 = st\<lparr>stdin := rest,
                         stdout := stdout st @ [Msg_main_menu] @
                           rejections ''Selection: '' (Some 1) (Some 6) bad @
                           [Prompt ''Selection: '']\<rparr>
           in if sel = 6 then (Inr (), py_print Msg_exiting_program st1)
              else (case (if sel = 1 then retrieve_set_members st1
                          else if sel = 2 then create_new_set st1
                          else if sel = 3 then update_set_members st1
                          else if sel = 4 then delete_set st1
                          else delete_all_data st1) of
                      (Inl e, st2) \<Rightarrow> (Inl e, st2)
                    | (Inr u, st2) \<Rightarrow> main_loop st2))"
    by (rule main_loop_select)
next
  assume "\<forall>b\<in>set (stdin st). \<not> acceptable (Some 1) (Some 6) b"
  then show "main_loop st =
          (Inl EOFError,
           st\<lparr>stdin := [],
              stdout := stdout st @ [Msg_main_menu] @
                rejections ''Selection: '' (Some 1) (Some 6) (stdin st) @
                [Prompt ''Selection: '']\<rparr>)"
    by (rule main_loop_all_bad_run)
qed

theorem get_int_returns_valid_witness:
  "get_int ''Selection: '' (Some 1) (Some 6) (console [''abc'', ''9'', '' 3 '', ''6'']) =
     (Inr 3, (console [''6''])\<lparr>stdout :=
        [Prompt ''Selection: '', Msg_invalid_input, Prompt ''Selection: '', Msg_enter_le 6,
         Prompt ''Selection: '']\<rparr>)
   \<and> (1::int) \<le> 3 \<and> (3::int) \<le> 6
   \<and> get_int ''Enter how many members will this set have: '' (Some 1) None
        (console [''two'', ''0'', ''-4'']) =
     (Inl EOFError, (console [])\<lparr>stdout :=
        [Prompt ''Enter how many members will this set have: '', Msg_invalid_input,
         Prompt ''Enter how many members will this set have: '', Msg_enter_ge 1,
         Prompt ''Enter how many members will this set have: '', Msg_enter_ge 1,
         Prompt ''Enter how many members will this set have: '']\<rparr>)
   \<and> main_loop (console [''abc'', ''9'', '' 6 '', ''1'']) =
     (Inr (), (console [''1''])\<lparr>stdout :=
        [Msg_main_menu, Prompt ''Selection: '', Msg_invalid_input, Prompt ''Selection: '',
         Msg_enter_le 6, Prompt ''Selection: '', Msg_exiting_program]\<rparr>)
   \<and> fst (main_loop (console [''abc'', ''0'', ''7'', []])) = Inl EOFError
   \<and> stdin (snd (main_loop (console [''abc'', ''0'', ''7'', []]))) = []"
proof -
  let ?st = "console [''abc'', ''9'', '' 3 '', ''6'']"
  let ?st' = "(console [''6''])\<lparr>stdout :=
        [Prompt ''Selection: '', Msg_invalid_input, Prompt ''Selection: '', Msg_enter_le 6,
         Prompt ''Selection: '']\<rparr>"
  have t: "\<forall>b\<in>set [''abc'', ''9'']. \<not> acceptable (Some 1) (Some 6) b"
    "acceptable (Some 1) (Some 6) '' 3 ''" "py_int (strip '' 3 '') = Some 3"
    "py_int (strip '' 6 '') = Some 6"
    "rejections ''Selection: '' (Some 1) (Some 6) [''abc'', ''9''] =
       [Prompt ''Selection: '', Msg_invalid_input, Prompt ''Selection: '', Msg_enter_le 6]"
    by (simp_all add: text_defs)
  have run: "get_int ''Selection: '' (Some 1) (Some 6) ?st = (Inr 3, ?st')"
    using get_int_returns_valid [of "''Selection: ''" "Some 1" "Some 6" ?st _ _ "'' 3 ''" "[''6'']"
                                    "[''abc'', ''9'']"] t
    by (simp add: console_def)
  from get_int_returns_valid [of "''Selection: ''" "Some 1" "Some 6" ?st 3 ?st'] run
  have bounds: "(1::int) \<le> 3 \<and> (3::int) \<le> 6"
    by blast
  have bad1: "\<forall>b\<in>set (stdin (console [''two'', ''0'', ''-4''])). \<not> acceptable (Some 1) None b"
    "rejections ''Enter how many members will this set have: '' (Some 1) None
       [''two'', ''0'', ''-4''] =
     [Prompt ''Enter how many members will this set have: '', Msg_invalid_input,
      Prompt ''Enter how many members will this set have: '', Msg_enter_ge 1,
      Prompt ''Enter how many members will this set have: '', Msg_enter_ge 1]"
    by (simp_all add: console_def text_defs)
  from get_int_returns_valid
         [of "''Enter how many members will this set have: ''" "Some 1" None
             "console [''two'', ''0'', ''-4'']"] bad1
  have eof: "get_int ''Enter how many members will this set have: '' (Some 1) None
        (console [''two'', ''0'', ''-4'']) =
     (Inl EOFError, (console [])\<lparr>stdout :=
        [Prompt ''Enter how many members will this set have: '', Msg_invalid_input,
         Prompt ''Enter how many members will this set have: '', Msg_enter_ge 1,
         Prompt ''Enter how many members will this set have: '', Msg_enter_ge 1,
         Prompt ''Enter how many members will this set have: '']\<rparr>)"
    by (simp add: console_def)
  from get_int_returns_valid
         [of _ _ _ "console [''abc'', ''9'', '' 6 '', ''1'']" _ _ "'' 6 ''" "[''1'']"
             "[''abc'', ''9'']" 6] t
  have menu: "main_loop (console [''abc'', ''9'', '' 6 '', ''1'']) =
     (Inr (), (console [''1''])\<lparr>stdout :=
        [Msg_main_menu, Prompt ''Selection: '', Msg_invalid_input, Prompt ''Selection: '',
         Msg_enter_le 6, Prompt ''Selection: '', Msg_exiting_program]\<rparr>)"
    by (simp add: console_def py_print_def)
  have bad2: "\<forall>b\<in>set (stdin (console [''abc'', ''0'', ''7'', []])).
                \<not> acceptable (Some 1) (Some 6) b"
    by (simp add: console_def text_defs)
  from get_int_returns_valid [of _ _ _ "console [''abc'', ''0'', ''7'', []]"] bad2
  have m2: "fst (main_loop (console [''abc'', ''0'', ''7'', []])) = Inl EOFError"
    "stdin (snd (main_loop (console [''abc'', ''0'', ''7'', []]))) = []"
    by simp_all
  from run bounds eof menu m2 show ?thesis by blast
qed

section \<open>One round of the update sub-menu\<close>

text \<open>Concrete sessions against a store that holds one set, or two.\<close>

definition session :: "db \<Rightarrow> string list \<Rightarrow> state" where
  "session d ls =
     \<lparr>store = d, reachable = True, stdin = ls, stdout = [], calls = [],
      set_order = (\<lambda>cs. palette_order)\<rparr>"

definition colors_store :: db where
  "colors_store = empty_store(''colors'' := {|''red'', ''green''|})"

definition two_sets_store :: db where
  "two_sets_store = colors_store(''sizes'' := {|''xl''|})"

lemmas run_defs = session_def colors_store_def empty_store_def db_scard_def db_exists_def
  fcard.rep_eq


lemma db_sadd_single:
  "db_sadd d k [m] = ((if m |\<in>| d k then 0 else 1), d(k := finsert m (d k)))"
proof -
  have "{|m|} |-| d k = (if m |\<in>| d k then {||} else {|m|})" by auto
  then show ?thesis by (simp add: db_sadd_def fcard.rep_eq)
qed

lemma update_add_member_run:
  assumes "stdin st1 = ml # rest" and "strip ml \<noteq> []"
  shows "update_add_member key st1 =
     (Inr Continue,
      st1\<lparr>stdin := rest,
          stdout := stdout st1 @
            [Prompt ''Enter the member value to add: '',
             if strip ml |\<in>| store st1 key then Msg_already_existed (strip ml) key
             else Msg_added (strip ml) key,
             Msg_cardinality_now (int (fcard (finsert (strip ml) (store st1 key))))],
          store := (store st1)(key := finsert (strip ml) (store st1 key)),
          calls := calls st1 @ [SAdd key [strip ml], SCard key]\<rparr>)"
  using assms
  by (simp add: update_add_member_def py_input_def Let_def r_sadd_def r_scard_def
        db_sadd_single db_scard_def py_print_def)

lemma update_remove_member_run:
  assumes "stdin st1 = ml # rest" and "strip ml \<noteq> []"
  shows "update_remove_member key st1 =
     (Inr Continue,
      st1\<lparr>stdin := rest,
          stdout := stdout st1 @
            [Prompt ''Enter the member value to remove: '',
             if strip ml |\<in>| store st1 key then Msg_removed (strip ml) key
             else Msg_not_found (strip ml) key,
             Msg_cardinality_now (int (fcard (store st1 key |-| {|strip ml|})))],
          store := (store st1)(key := store st1 key |-| {|strip ml|}),
          calls := calls st1 @ [SRem key (strip ml), SCard key]\<rparr>)"
  using assms
  by (simp add: update_remove_member_def py_input_def Let_def r_srem_def r_scard_def
        db_srem_def db_scard_def py_print_def)


lemma remove_each_run:
  "remove_each key ms st =
     st\<lparr>stdout := stdout st @ map Msg_removing_member ms,
        store := (store st)(key := store st key |-| fset_of_list ms),
        calls := calls st @ map (SRem key) ms\<rparr>"
proof (induction ms arbitrary: st)
  case Nil
  show ?case by simp
next
  case (Cons m ms)
  have "store st key |-| {|m|} |-| fset_of_list ms = store st key |-| finsert m (fset_of_list ms)"
    by auto
  moreover have "((store st)(key := A))(key := B) = (store st)(key := B)" for A B :: "string fset"
    by simp
  ultimately show ?case
    by (simp add: Cons.IH r_srem_def db_srem_def py_print_def fun_upd_same del: fun_upd_apply)
qed

lemma set_iteration_set [simp]:
  "set (set_iteration ord s) = fset s" "fset_of_list (set_iteration ord s) = s"
  by (auto simp: set_iteration_def fset_of_list.rep_eq [symmetric])

lemma set_iteration_distinct [simp]:
  "distinct (set_iteration ord s)" "length (set_iteration ord s) = fcard s"
proof -
  show d: "distinct (set_iteration ord s)"
    by (simp add: set_iteration_def sorted_list_of_fset.rep_eq)
  from distinct_card [OF d] show "length (set_iteration ord s) = fcard s"
    by (simp add: fcard.rep_eq)
qed

lemma set_iteration_empty [simp]: "set_iteration ord s = [] \<longleftrightarrow> s = {||}"
proof
  assume a: "set_iteration ord s = []"
  have "fset_of_list (set_iteration ord s) = s" by (rule set_iteration_set(2))
  then show "s = {||}" unfolding a by simp
next
  assume "s = {||}"
  then have "set (set_iteration ord s) = {}" by simp
  then show "set_iteration ord s = []" by (simp only: set_empty)
qed

lemma update_remove_all_run:
  "update_remove_all key st1 =
     (Inr Continue,
      st1\<lparr>stdout := stdout st1 @ [Msg_removing_all] @
            (if store st1 key = {||} then [Msg_already_no_members]
             else map Msg_removing_member
                    (set_iteration (set_order st1 (calls st1)) (store st1 key))) @
            [Msg_cardinality_now 0],
          store := (store st1)(key := {||}),
          calls := calls st1 @ [SMembers key] @
                   map (SRem key) (set_iteration (set_order st1 (calls st1)) (store st1 key)) @
                   [SCard key]\<rparr>)"
proof (cases "store st1 key = {||}")
  case True
  have "set_iteration ord {||} = []" for ord by simp
  moreover have "(store st1)(key := {||}) = store st1" by (metis True fun_upd_triv)
  ultimately show ?thesis using True
    by (simp add: update_remove_all_def Let_def r_smembers_def db_smembers_def r_scard_def
          db_scard_def py_print_def)
next
  case False
  then show ?thesis
    by (simp add: update_remove_all_def Let_def r_smembers_def db_smembers_def r_scard_def
          db_scard_def py_print_def remove_each_run)
qed







section \<open>The create-set flow\<close>

text \<open>Record updates are kept in the order of the fields.\<close>

lemma state_update_order [simp]:
  "st\<lparr>stdout := a, stdin := b\<rparr> = st\<lparr>stdin := b, stdout := a\<rparr>"
  "st\<lparr>calls := c, stdin := b\<rparr> = st\<lparr>stdin := b, calls := c\<rparr>"
  "st\<lparr>calls := c, stdout := a\<rparr> = st\<lparr>stdout := a, calls := c\<rparr>"
  "st\<lparr>stdin := b, store := d\<rparr> = st\<lparr>store := d, stdin := b\<rparr>"
  "st\<lparr>stdout := a, store := d\<rparr> = st\<lparr>store := d, stdout := a\<rparr>"
  "st\<lparr>calls := c, store := d\<rparr> = st\<lparr>store := d, calls := c\<rparr>"
  by simp_all

lemma create_new_set_loop_all:
  "stdin st = ms @ rest \<Longrightarrow> length ms = n \<Longrightarrow> \<forall>m\<in>set ms. strip m \<noteq> [] \<Longrightarrow>
   create_new_set_loop n acc st =
     (Inr (Some (acc @ map strip ms)),
      st\<lparr>stdin := rest,
         stdout := stdout st @ replicate n (Prompt ''Enter the next member value: '')\<rparr>)"
proof (induction n arbitrary: ms acc st)
  case 0
  then show ?case by simp
next
  case (Suc n)
  then obtain m ms' where ms: "ms = m # ms'" by (cases ms) auto
  let ?st = "st\<lparr>stdin := ms' @ rest,
                 stdout := stdout st @ [Prompt ''Enter the next member value: '']\<rparr>"
  from Suc.prems ms have "create_new_set_loop (Suc n) acc st =
      create_new_set_loop n (acc @ [strip m]) ?st"
    by (simp add: py_input_def py_print_def Let_def)
  also have "\<dots> = (Inr (Some ((acc @ [strip m]) @ map strip ms')),
      ?st\<lparr>stdin := rest,
          stdout := stdout ?st @ replicate n (Prompt ''Enter the next member value: '')\<rparr>)"
    using Suc.prems ms by (intro Suc.IH) simp_all
  finally show ?case using ms by (simp add: replicate_append_same)
qed

lemma create_new_set_loop_abort:
  "stdin st = ms @ e # rest \<Longrightarrow> length ms < n \<Longrightarrow> \<forall>m\<in>set ms. strip m \<noteq> [] \<Longrightarrow>
   strip e = [] \<Longrightarrow>
   create_new_set_loop n acc st =
     (Inr None,
      st\<lparr>stdin := rest,
         stdout := stdout st @
           replicate (Suc (length ms)) (Prompt ''Enter the next member value: '') @
           [Msg_member_empty_try_again]\<rparr>)"
proof (induction n arbitrary: ms acc st)
  case 0
  then show ?case by simp
next
  case (Suc n)
  show ?case
  proof (cases ms)
    case Nil
    with Suc.prems show ?thesis by (simp add: py_input_def py_print_def Let_def)
  next
    case (Cons m ms')
    let ?st = "st\<lparr>stdin := ms' @ e # rest,
                   stdout := stdout st @ [Prompt ''Enter the next member value: '']\<rparr>"
    from Suc.prems Cons have "create_new_set_loop (Suc n) acc st =
        create_new_set_loop n (acc @ [strip m]) ?st"
      by (simp add: py_input_def py_print_def Let_def)
    also have "\<dots> = (Inr None,
        ?st\<lparr>stdin := rest,
            stdout := stdout ?st @
              replicate (Suc (length ms')) (Prompt ''Enter the next member value: '') @
              [Msg_member_empty_try_again]\<rparr>)"
      using Suc.prems Cons by (intro Suc.IH) simp_all
    finally show ?thesis using Cons by (simp add: replicate_append_same)
  qed
qed

text \<open>The console lines of a create-set flow up to the member loop.\<close>

lemma create_new_set_to_loop:
  assumes "stdin st = kl # bad @ cl # ls" and "strip kl \<noteq> []"
    and "\<forall>b\<in>set bad. \<not> acceptable (Some 1) None b"
    and "py_int (strip cl) = Some n" and "1 \<le> n"
  shows "create_new_set st =
     (case create_new_set_loop (nat n) []
             (st\<lparr>stdin := ls,
                 stdout := stdout st @ [Prompt ''Enter the key you wish to add: ''] @
                   rejections ''Enter how many members will this set have: '' (Some 1) None bad @
                   [Prompt ''Enter how many members will this set have: '']\<rparr>) of
        (Inl e, st3) \<Rightarrow> (Inl e, st3)
      | (Inr None, st3) \<Rightarrow> (Inr (), st3)
      | (Inr (Some members), st3) \<Rightarrow>
          (let (added, st4) = r_sadd (strip kl) members st3;
               st5 = py_print (Msg_set_updated (strip kl) added) st4;
               (card, st6) = r_scard (strip kl) st5
           in (Inr (), py_print (Msg_cardinality_now card) st6)))"
proof -
  let ?st1 = "st\<lparr>stdin := bad @ cl # ls,
                  stdout := stdout st @ [Prompt ''Enter the key you wish to add: '']\<rparr>"
  have s1: "stdin ?st1 = bad @ cl # ls" by simp
  have acc: "acceptable (Some 1) None cl" using assms(4,5) by (simp add: acceptable_def)
  from get_int_run [OF s1 assms(3) acc, of "''Enter how many members will this set have: ''"]
    assms(1,2,4)
  show ?thesis
    by (simp add: create_new_set_def py_input_def py_print_def Let_def)
qed

text \<open>
  C3. In the create-set flow, when one of the requested members is empty the operation
  ends at once: the lines after it are not read, no call at all is issued to the store, so
  none of the members collected before it is added, and the store is as it was.
\<close>

theorem create_new_set_abort_on_empty_member:
  assumes "stdin st = kl # bad @ cl # ms @ e # rest" and "strip kl \<noteq> []"
    and "\<forall>b\<in>set bad. \<not> acceptable (Some 1) None b"
    and "py_int (strip cl) = Some n" and "length ms < nat n"
    and "\<forall>m\<in>set ms. strip m \<noteq> []" and "strip e = []"
  shows "create_new_set st =
           (Inr (),
            st\<lparr>stdin := rest,
               stdout := stdout st @ [Prompt ''Enter the key you wish to add: ''] @
                 rejections ''Enter how many members will this set have: '' (Some 1) None bad @
                 [Prompt ''Enter how many members will this set have: ''] @
                 replicate (Suc (length ms)) (Prompt ''Enter the next member value: '') @
                 [Msg_member_empty_try_again]\<rparr>)
         \<and> calls (snd (create_new_set st)) = calls st
         \<and> store (snd (create_new_set st)) = store st"
proof -
  from assms(5) have n: "1 \<le> n" by simp
  let ?st2 = "st\<lparr>stdin := ms @ e # rest,
                 stdout := stdout st @ [Prompt ''Enter the key you wish to add: ''] @
                   rejections ''Enter how many members will this set have: '' (Some 1) None bad @
                   [Prompt ''Enter how many members will this set have: '']\<rparr>"
  have s2: "stdin ?st2 = ms @ e # rest" by simp
  have "create_new_set st =
           (Inr (),
            st\<lparr>stdin := rest,
               stdout := stdout st @ [Prompt ''Enter the key you wish to add: ''] @
                 rejections ''Enter how many members will this set have: '' (Some 1) None bad @
                 [Prompt ''Enter how many members will this set have: ''] @
                 replicate (Suc (length ms)) (Prompt ''Enter the next member value: '') @
                 [Msg_member_empty_try_again]\<rparr>)"
    using create_new_set_to_loop [OF assms(1,2,3,4) n]
      create_new_set_loop_abort [OF s2 assms(5,6,7), of "[]"]
    by simp
  then show ?thesis by simp
qed

lemma create_new_set_run:
  assumes "stdin st = kl # bad @ cl # ms @ rest" and "strip kl \<noteq> []"
    and "\<forall>b\<in>set bad. \<not> acceptable (Some 1) None b"
    and "py_int (strip cl) = Some n" and "1 \<le> n" and "length ms = nat n"
    and "\<forall>m\<in>set ms. strip m \<noteq> []"
  shows "create_new_set st =
           (Inr (),
            st\<lparr>store := (store st)(strip kl := store st (strip kl) |\<union>| fset_of_list (map strip ms)),
               stdin := rest,
               stdout := stdout st @ [Prompt ''Enter the key you wish to add: ''] @
                 rejections ''Enter how many members will this set have: '' (Some 1) None bad @
                 [Prompt ''Enter how many members will this set have: ''] @
                 replicate (nat n) (Prompt ''Enter the next member value: '') @
                 [Msg_set_updated (strip kl)
                    (int (card (set (map strip ms) - fset (store st (strip kl))))),
                  Msg_cardinality_now
                    (int (card (fset (store st (strip kl)) \<union> set (map strip ms))))],
               calls := calls st @ [SAdd (strip kl) (map strip ms), SCard (strip kl)]\<rparr>)"
proof -
  let ?st2 = "st\<lparr>stdin := ms @ rest,
                 stdout := stdout st @ [Prompt ''Enter the key you wish to add: ''] @
                   rejections ''Enter how many members will this set have: '' (Some 1) None bad @
                   [Prompt ''Enter how many members will this set have: '']\<rparr>"
  have s2: "stdin ?st2 = ms @ rest" by simp
  show ?thesis
    using create_new_set_to_loop [OF assms(1,2,3,4,5)]
      create_new_set_loop_all [OF s2 assms(6,7), of "[]"]
    by (simp add: r_sadd_def r_scard_def db_sadd_def db_scard_def py_print_def fcard.rep_eq
          fset_of_list.rep_eq)
qed

text \<open>
  C4. The create-set flow issues exactly one add call, with all the members collected, and
  then asks for the cardinality. The count it reports is the number of distinct members of
  the batch that the set did not hold before, so duplicates in the batch and members
  already present are not counted; for a fresh key and the members red, green, red the
  count is 2 and the cardinality 2.
\<close>

theorem create_new_set_one_batched_add:
  assumes "stdin st = kl # bad @ cl # ms @ rest" and "strip kl \<noteq> []"
    and "\<forall>b\<in>set bad. \<not> acceptable (Some 1) None b"
    and "py_int (strip cl) = Some n" and "1 \<le> n" and "length ms = nat n"
    and "\<forall>m\<in>set ms. strip m \<noteq> []"
  shows "create_new_set st =
           (Inr (),
            st\<lparr>store := (store st)(strip kl := store st (strip kl) |\<union>| fset_of_list (map strip ms)),
               stdin := rest,
               stdout := stdout st @ [Prompt ''Enter the key you wish to add: ''] @
                 rejections ''Enter how many members will this set have: '' (Some 1) None bad @
                 [Prompt ''Enter how many members will this set have: ''] @
                 replicate (nat n) (Prompt ''Enter the next member value: '') @
                 [Msg_set_updated (strip kl)
                    (int (card (set (map strip ms) - fset (store st (strip kl))))),
                  Msg_cardinality_now
                    (int (card (fset (store st (strip kl)) \<union> set (map strip ms))))],
               calls := calls st @ [SAdd (strip kl) (map strip ms), SCard (strip kl)]\<rparr>)"
  using assms by (rule create_new_set_run)

lemmas example_defs = session_def colors_store_def empty_store_def console_def

theorem create_new_set_one_batched_add_witness:
  "create_new_set (console [''colors'', ''3'', ''red'', ''green'', ''red'']) =
     (Inr (),
      (session (empty_store(''colors'' := {|''red'', ''green''|})) [])\<lparr>
         stdout := [Prompt ''Enter the key you wish to add: '',
                    Prompt ''Enter how many members will this set have: '',
                    Prompt ''Enter the next member value: '',
                    Prompt ''Enter the next member value: '',
                    Prompt ''Enter the next member value: '',
                    Msg_set_updated ''colors'' 2, Msg_cardinality_now 2],
         calls := [SAdd ''colors'' [''red'', ''green'', ''red''], SCard ''colors'']\<rparr>)"
proof -
  have t: "strip ''colors'' = ''colors''" "py_int (strip ''3'') = Some 3"
    "strip ''red'' = ''red''" "strip ''green'' = ''green''"
    by (simp_all add: text_defs)
  have c: "card ({''red'', ''green'', ''red''} :: string set) = 2" by (simp add: card_insert_if)
  have u: "{|''red'', ''green'', ''red''|} = {|''red'', ''green''|}" by auto
  from create_new_set_one_batched_add
         [of "console [''colors'', ''3'', ''red'', ''green'', ''red'']" "''colors''" "[]" "''3''"
             "[''red'', ''green'', ''red'']" "[]" 3] t c u
  show ?thesis
    by (simp add: example_defs rejections_def numeral_3_eq_3)
qed

theorem create_new_set_abort_on_empty_member_witness:
  "create_new_set (session colors_store [''colors'', ''x'', ''3'', ''blue'', '' '', ''red'']) =
     (Inr (),
      (session colors_store [''red''])\<lparr>
         stdout := [Prompt ''Enter the key you wish to add: '',
                    Prompt ''Enter how many members will this set have: '',
                    Msg_invalid_input,
                    Prompt ''Enter how many members will this set have: '',
                    Prompt ''Enter the next member value: '',
                    Prompt ''Enter the next member value: '',
                    Msg_member_empty_try_again]\<rparr>)"
proof -
  have t: "strip ''colors'' = ''colors''" "py_int (strip ''3'') = Some 3"
    "strip ''blue'' = ''blue''" "strip '' '' = []" "\<not> acceptable (Some 1) None ''x''"
    "reject_msg (Some 1) None ''x'' = Msg_invalid_input"
    by (simp_all add: text_defs)
  from create_new_set_abort_on_empty_member
         [of "session colors_store [''colors'', ''x'', ''3'', ''blue'', '' '', ''red'']"
             "''colors''" "[''x'']" "''3''" "[''blue'']" "'' ''" "[''red'']" 3] t
  show ?thesis
    by (simp add: session_def rejections_def)
qed

lemma lower_char_eq_y: "lower_char c = CHR ''y'' \<longleftrightarrow> c = CHR ''y'' \<or> c = CHR ''Y''"
proof -
  have y: "(of_char (CHR ''y'') :: nat) = 121" and Y: "(of_char (CHR ''Y'') :: nat) = 89"
    by simp_all
  have iff_y: "c = CHR ''y'' \<longleftrightarrow> (of_char c :: nat) = 121" for c
    using of_char_eq_iff [of c "CHR ''y''", where ?'a = nat] by (simp add: y)
  have iff_Y: "c = CHR ''Y'' \<longleftrightarrow> (of_char c :: nat) = 89" for c
    using of_char_eq_iff [of c "CHR ''Y''", where ?'a = nat] by (simp add: Y)
  have up: "(of_char (char_of (n + 32 :: nat)) :: nat) = 121 \<longleftrightarrow> n = 89" if "n \<le> 222" for n
    using that by simp
  show ?thesis
    unfolding lower_char_def Let_def iff_y iff_Y
    using up [of "of_char c"] by auto
qed

lemma lower_eq_y: "lower s = ''y'' \<longleftrightarrow> s = ''y'' \<or> s = ''Y''"
proof (cases s)
  case Nil
  then show ?thesis by (simp add: lower_def)
next
  case (Cons c cs)
  then show ?thesis using lower_char_eq_y [of c] by (cases cs) (auto simp: lower_def)
qed

section \<open>The delete-all-data flow\<close>

text \<open>
  C5, as stated, fails: the answer \<open>Y\<close> is not \<open>y\<close>, and yet it flushes the store; a
  set of cardinality 2 is gone afterwards.
\<close>

theorem delete_all_data_uppercase_counterexample:
  "''Y'' \<noteq> ''y''
   \<and> calls (snd (delete_all_data (session colors_store [''Y'']))) = [FlushDB]
   \<and> db_scard (store (session colors_store [''Y''])) ''colors'' = 2
   \<and> db_scard (store (snd (delete_all_data (session colors_store [''Y''])))) ''colors'' = 0"
  by code_simp

text \<open>
  C5, amended. In the delete-all-data flow, an answer that reads \<open>y\<close> once surrounding
  whitespace is stripped and letters are lowered (that is \<open>y\<close> or \<open>Y\<close> after stripping)
  issues one full flush, which leaves no key; any other answer issues no store call at
  all, so the cardinality of every key is as before.
\<close>

theorem delete_all_data_confirmation:
  assumes "stdin st = l # rest"
  shows
    "(strip l = ''y'' \<or> strip l = ''Y'' \<longrightarrow>
        delete_all_data st =
          (Inr (),
           st\<lparr>store := (\<lambda>k. {||}),
              stdin := rest,
              stdout := stdout st @
                [Prompt ''Are you sure you want to delete ALL data from the database? (y/n): '',
                 Msg_all_deleted],
              calls := calls st @ [FlushDB]\<rparr>)
        \<and> (\<forall>k. db_exists (store (snd (delete_all_data st))) k = 0))
     \<and> (strip l \<noteq> ''y'' \<and> strip l \<noteq> ''Y'' \<longrightarrow>
        delete_all_data st =
          (Inr (),
           st\<lparr>stdin := rest,
              stdout := stdout st @
                [Prompt ''Are you sure you want to delete ALL data from the database? (y/n): '',
                 Msg_delete_canceled]\<rparr>)
        \<and> calls (snd (delete_all_data st)) = calls st
        \<and> (\<forall>k. db_scard (store (snd (delete_all_data st))) k = db_scard (store st) k))"
  using assms lower_eq_y [of "strip l"]
  by (auto simp: delete_all_data_def py_input_def py_print_def Let_def r_flushdb_def
        db_flushdb_def db_exists_def)

theorem delete_all_data_confirmation_witness:
  "delete_all_data (session colors_store ['' y '', ''6'']) =
     (Inr (),
      (session (\<lambda>k. {||}) [''6''])\<lparr>
         stdout := [Prompt ''Are you sure you want to delete ALL data from the database? (y/n): '',
                    Msg_all_deleted],
         calls := [FlushDB]\<rparr>)
   \<and> db_exists (store (snd (delete_all_data (session colors_store ['' y '', ''6'']))))
        ''colors'' = 0
   \<and> delete_all_data (session colors_store [''n'', ''6'']) =
     (Inr (),
      (session colors_store [''6''])\<lparr>
         stdout := [Prompt ''Are you sure you want to delete ALL data from the database? (y/n): '',
                    Msg_delete_canceled]\<rparr>)
   \<and> db_scard (store (snd (delete_all_data (session colors_store [''n'', ''6''])))) ''colors'' = 2"
proof -
  have t: "strip '' y '' = ''y''" "strip ''n'' = ''n''" by (simp_all add: text_defs)
  have c: "db_scard (store (session colors_store [''n'', ''6''])) ''colors'' = 2"
    by (simp add: run_defs)
  from delete_all_data_confirmation [of "session colors_store ['' y '', ''6'']" "'' y ''" "[''6'']"] t
  have a: "delete_all_data (session colors_store ['' y '', ''6'']) =
     (Inr (),
      (session (\<lambda>k. {||}) [''6''])\<lparr>
         stdout := [Prompt ''Are you sure you want to delete ALL data from the database? (y/n): '',
                    Msg_all_deleted],
         calls := [FlushDB]\<rparr>)"
    and a': "db_exists (store (snd (delete_all_data (session colors_store ['' y '', ''6'']))))
        ''colors'' = 0"
    by (simp_all add: session_def db_exists_def)
  from delete_all_data_confirmation [of "session colors_store [''n'', ''6'']" "''n''" "[''6'']"] t c
  have b: "delete_all_data (session colors_store [''n'', ''6'']) =
     (Inr (),
      (session colors_store [''6''])\<lparr>
         stdout := [Prompt ''Are you sure you want to delete ALL data from the database? (y/n): '',
                    Msg_delete_canceled]\<rparr>)"
    and b': "db_scard (store (snd (delete_all_data (session colors_store [''n'', ''6''])))) ''colors'' = 2"
    by (simp_all add: session_def)
  from a a' b b' show ?thesis by blast
qed

section \<open>Create, then query\<close>

lemma fold_print_members:
  "fold (\<lambda>m. py_print (Msg_member m)) ms st = st\<lparr>stdout := stdout st @ map Msg_member ms\<rparr>"
  by (induction ms arbitrary: st) (simp_all add: py_print_def)

lemma retrieve_set_members_present:
  assumes "stdin st = ql # rest" and "strip ql \<noteq> []" and "store st (strip ql) \<noteq> {||}"
  shows "retrieve_set_members st =
     (Inr (),
      st\<lparr>stdin := rest,
         stdout := stdout st @
           [Prompt ''Enter the key you wish to query: '', Msg_members_of (strip ql)] @
           map Msg_member
             (set_iteration (set_order st (calls st @ [Exists (strip ql)])) (store st (strip ql))) @
           [Msg_cardinality (int (fcard (store st (strip ql))))],
         calls := calls st @ [Exists (strip ql), SMembers (strip ql), SCard (strip ql)]\<rparr>)"
proof -
  have "fcard (store st (strip ql)) \<noteq> 0" using assms(3) by simp
  then show ?thesis
    using assms
    by (simp add: retrieve_set_members_def py_input_def Let_def r_exists_def db_exists_def
          r_smembers_def db_smembers_def r_scard_def db_scard_def format_members_def
          fold_print_members py_print_def)
qed

text \<open>
  C1, as stated, fails: the create-set flow adds to the set the key already names. With
  \<open>colors\<close> holding red and green, creating \<open>colors\<close> with the one member blue and
  querying it lists three members and the cardinality 3, not the set of the one member
  entered and the cardinality 1.
\<close>

theorem create_then_query_counterexample:
  "Msg_member ''red'' \<in> set (stdout (snd (retrieve_set_members (snd (create_new_set
      (session colors_store [''colors'', ''1'', ''blue'', ''colors'']))))))
   \<and> Msg_member ''green'' \<in> set (stdout (snd (retrieve_set_members (snd (create_new_set
      (session colors_store [''colors'', ''1'', ''blue'', ''colors'']))))))
   \<and> Msg_member ''blue'' \<in> set (stdout (snd (retrieve_set_members (snd (create_new_set
      (session colors_store [''colors'', ''1'', ''blue'', ''colors'']))))))
   \<and> last (stdout (snd (retrieve_set_members (snd (create_new_set
      (session colors_store [''colors'', ''1'', ''blue'', ''colors'']))))))
       = Msg_cardinality 3
   \<and> {''red'', ''green'', ''blue''} \<noteq> set [''blue'']
   \<and> (3::int) \<noteq> int (card (set [''blue'']))"
  by code_simp

text \<open>
  C1, amended. For a key and members entered through the create-set flow (each non-empty
  once stripped), a query of that key right afterwards lists exactly the members the key
  held before together with the stripped members entered, each once, and reports the
  cardinality of that union; for a key that held no member before, that is exactly the
  set of members entered and its cardinality. The members are listed in whatever order
  the set yields them.
\<close>

theorem create_then_query:
  assumes "stdin st = kl # bad @ cl # ms @ ql # rest" and "strip kl \<noteq> []"
    and "\<forall>b\<in>set bad. \<not> acceptable (Some 1) None b"
    and "py_int (strip cl) = Some n" and "1 \<le> n" and "length ms = nat n"
    and "\<forall>m\<in>set ms. strip m \<noteq> []" and "strip ql = strip kl"
  shows
    "(let key = strip kl;
          M = store st key |\<union>| fset_of_list (map strip ms);
          st1 = snd (create_new_set st)
      in retrieve_set_members st1 =
           (Inr (),
            st1\<lparr>stdin := rest,
                stdout := stdout st1 @
                  [Prompt ''Enter the key you wish to query: '', Msg_members_of key] @
                  map Msg_member (set_iteration (set_order st1 (calls st1 @ [Exists key])) M) @
                  [Msg_cardinality (int (card (fset (store st key) \<union> set (map strip ms))))],
                calls := calls st1 @ [Exists key, SMembers key, SCard key]\<rparr>)
         \<and> distinct (set_iteration (set_order st1 (calls st1 @ [Exists key])) M)
         \<and> set (set_iteration (set_order st1 (calls st1 @ [Exists key])) M) =
             fset (store st key) \<union> set (map strip ms)
         \<and> (store st key = {||} \<longrightarrow>
              set (set_iteration (set_order st1 (calls st1 @ [Exists key])) M) =
                set (map strip ms) \<and>
              card (fset (store st key) \<union> set (map strip ms)) = card (set (map strip ms))))"
proof -
  let ?key = "strip kl"
  let ?M = "store st ?key |\<union>| fset_of_list (map strip ms)"
  let ?st1 = "snd (create_new_set st)"
  have c: "create_new_set st =
           (Inr (),
            st\<lparr>store := (store st)(?key := ?M),
               stdin := ql # rest,
               stdout := stdout st @ [Prompt ''Enter the key you wish to add: ''] @
                 rejections ''Enter how many members will this set have: '' (Some 1) None bad @
                 [Prompt ''Enter how many members will this set have: ''] @
                 replicate (nat n) (Prompt ''Enter the next member value: '') @
                 [Msg_set_updated ?key (int (card (set (map strip ms) - fset (store st ?key)))),
                  Msg_cardinality_now (int (card (fset (store st ?key) \<union> set (map strip ms))))],
               calls := calls st @ [SAdd ?key (map strip ms), SCard ?key]\<rparr>)"
    using create_new_set_run [of st kl bad cl ms "ql # rest" n] assms by simp
  have s1: "stdin ?st1 = ql # rest" and st1: "store ?st1 (strip ql) = ?M"
    using assms(8) by (simp_all add: c)
  from assms(5,6) have "ms \<noteq> []" by auto
  then have ne: "?M \<noteq> {||}" by (cases ms) auto
  have q: "strip ql \<noteq> []" using assms(2,8) by simp
  have card: "fcard ?M = card (fset (store st ?key) \<union> set (map strip ms))"
    by (simp add: fcard.rep_eq fset_of_list.rep_eq)
  from retrieve_set_members_present [OF s1 q] st1 ne assms(8) card
  have r: "retrieve_set_members ?st1 =
           (Inr (),
            ?st1\<lparr>stdin := rest,
                stdout := stdout ?st1 @
                  [Prompt ''Enter the key you wish to query: '', Msg_members_of ?key] @
                  map Msg_member
                    (set_iteration (set_order ?st1 (calls ?st1 @ [Exists ?key])) ?M) @
                  [Msg_cardinality (int (card (fset (store st ?key) \<union> set (map strip ms))))],
                calls := calls ?st1 @ [Exists ?key, SMembers ?key, SCard ?key]\<rparr>)"
    by simp
  show ?thesis
    unfolding Let_def
    using r by (simp add: fset_of_list.rep_eq)
qed

theorem create_then_query_witness:
  "fst (retrieve_set_members (snd (create_new_set
      (console [''colors'', ''2'', ''red'', ''green'', '' colors ''])))) = Inr ()
   \<and> set (stdout (snd (retrieve_set_members (snd (create_new_set
      (console [''colors'', ''2'', ''red'', ''green'', '' colors ''])))))) =
     set (stdout (snd (create_new_set (console [''colors'', ''2'', ''red'', ''green'', '' colors ''])))) \<union>
     {Prompt ''Enter the key you wish to query: '', Msg_members_of ''colors'',
      Msg_member ''red'', Msg_member ''green'', Msg_cardinality 2}
   \<and> length (stdout (snd (retrieve_set_members (snd (create_new_set
      (console [''colors'', ''2'', ''red'', ''green'', '' colors ''])))))) =
     length (stdout (snd (create_new_set
      (console [''colors'', ''2'', ''red'', ''green'', '' colors ''])))) + 5
   \<and> last (stdout (snd (retrieve_set_members (snd (create_new_set
      (console [''colors'', ''2'', ''red'', ''green'', '' colors '']))))))
     = Msg_cardinality 2
   \<and> calls (snd (retrieve_set_members (snd (create_new_set
      (console [''colors'', ''2'', ''red'', ''green'', '' colors ''])))))
     = calls (snd (create_new_set (console [''colors'', ''2'', ''red'', ''green'', '' colors '']))) @
       [Exists ''colors'', SMembers ''colors'', SCard ''colors'']"
proof -
  have t: "strip ''colors'' = ''colors''" "py_int (strip ''2'') = Some 2"
    "strip ''red'' = ''red''" "strip ''green'' = ''green''" "strip '' colors '' = ''colors''"
    by (simp_all add: text_defs)
  have c: "card ({''red'', ''green''} :: string set) = 2" by (simp add: card_insert_if)
  have f: "fcard {|''red'', ''green''|} = 2" by (simp add: fcard.rep_eq card_insert_if)
  from create_then_query
         [of "console [''colors'', ''2'', ''red'', ''green'', '' colors '']" "''colors''" "[]" "''2''"
             "[''red'', ''green'']" "'' colors ''" "[]" 2] t c f
  show ?thesis
    by (auto simp: console_def empty_store_def Let_def)
qed

section \<open>What the operations send to the store\<close>

text \<open>
  A call is well-formed when its key and its members are not empty; the calls of one
  operation are guarded when they start with the exists check of a key, stop there when
  the key is absent, and otherwise all concern that key.
\<close>

fun call_ok :: "call \<Rightarrow> bool" where
  "call_ok Ping = True"
| "call_ok (Exists k) = (k \<noteq> [])"
| "call_ok (SAdd k ms) = (k \<noteq> [] \<and> [] \<notin> set ms)"
| "call_ok (SRem k m) = (k \<noteq> [] \<and> m \<noteq> [])"
| "call_ok (SMembers k) = (k \<noteq> [])"
| "call_ok (SCard k) = (k \<noteq> [])"
| "call_ok (Delete k) = (k \<noteq> [])"
| "call_ok FlushDB = True"

definition nonempty_inv :: "state \<Rightarrow> bool" where
  "nonempty_inv st = (list_all call_ok (calls st) \<and> (\<forall>k. [] |\<notin>| store st k))"

fun call_key :: "call \<Rightarrow> string option" where
  "call_key Ping = None"
| "call_key (Exists k) = Some k"
| "call_key (SAdd k ms) = Some k"
| "call_key (SRem k m) = Some k"
| "call_key (SMembers k) = Some k"
| "call_key (SCard k) = Some k"
| "call_key (Delete k) = Some k"
| "call_key FlushDB = None"

fun guarded :: "db \<Rightarrow> call list \<Rightarrow> bool" where
  "guarded d [] = True"
| "guarded d (Exists k # cs) =
     (if db_exists d k = 0 then cs = [] else list_all (\<lambda>c. call_key c = Some k) cs)"
| "guarded d (c # cs) = False"

lemma get_int_frame:
  "store (snd (get_int p mn mx st)) = store st \<and> calls (snd (get_int p mn mx st)) = calls st
   \<and> reachable (snd (get_int p mn mx st)) = reachable st"
proof (cases "\<forall>b\<in>set (stdin st). \<not> acceptable mn mx b")
  case True
  from get_int_all_bad [OF True, of p] show ?thesis by simp
next
  case False
  then have "\<exists>x\<in>set (stdin st). acceptable mn mx x" by simp
  from split_list_first_prop [OF this]
  obtain bad l rest where s: "stdin st = bad @ l # rest" and acc: "acceptable mn mx l"
    and bad: "\<forall>b\<in>set bad. \<not> acceptable mn mx b" by blast
  from get_int_run [OF s bad acc, of p] show ?thesis by simp
qed

lemma create_new_set_loop_frame:
  "store (snd (create_new_set_loop n acc st)) = store st \<and>
   calls (snd (create_new_set_loop n acc st)) = calls st"
proof (induction n arbitrary: acc st)
  case 0
  show ?case by simp
next
  case (Suc n)
  show ?case
  proof (cases "stdin st")
    case Nil
    then show ?thesis by (simp add: py_input_def py_print_def)
  next
    case (Cons l ls)
    with Suc [of "acc @ [strip l]" "st\<lparr>stdin := ls, stdout := stdout st @ [Prompt ''Enter the next member value: '']\<rparr>"]
    show ?thesis by (simp add: py_input_def py_print_def Let_def)
  qed
qed

lemma create_new_set_loop_members:
  "create_new_set_loop n acc st = (Inr (Some ms), st') \<Longrightarrow> [] \<notin> set acc \<Longrightarrow>
   [] \<notin> set ms \<and> (n > 0 \<or> acc \<noteq> [] \<longrightarrow> ms \<noteq> [])"
proof (induction n arbitrary: acc st)
  case 0
  then show ?case by auto
next
  case (Suc n)
  show ?case
  proof (cases "stdin st")
    case Nil
    with Suc.prems show ?thesis by (simp add: py_input_def py_print_def)
  next
    case (Cons l ls)
    show ?thesis
    proof (cases "strip l = []")
      case True
      with Cons Suc.prems show ?thesis by (simp add: py_input_def py_print_def Let_def)
    next
      case False
      with Cons Suc.prems
      have "create_new_set_loop n (acc @ [strip l])
              (st\<lparr>stdin := ls, stdout := stdout st @ [Prompt ''Enter the next member value: '']\<rparr>)
            = (Inr (Some ms), st')"
        by (simp add: py_input_def py_print_def Let_def)
      from Suc.IH [OF this] False Suc.prems(2) show ?thesis by auto
    qed
  qed
qed

text \<open>What one run of the create-set flow sends to the store.\<close>

lemma create_new_set_calls:
  "\<exists>cs. calls (snd (create_new_set st)) = calls st @ cs \<and>
        (cs = [] \<and> store (snd (create_new_set st)) = store st \<or>
         (\<exists>k ms. k \<noteq> [] \<and> ms \<noteq> [] \<and> [] \<notin> set ms \<and> cs = [SAdd k ms, SCard k] \<and>
             store (snd (create_new_set st)) = (store st)(k := store st k |\<union>| fset_of_list ms)))"
proof (cases "stdin st")
  case Nil
  then show ?thesis by (simp add: create_new_set_def py_input_def py_print_def)
next
  case (Cons kl ls)
  let ?st1 = "st\<lparr>stdin := ls, stdout := stdout st @ [Prompt ''Enter the key you wish to add: '']\<rparr>"
  let ?g = "get_int ''Enter how many members will this set have: '' (Some 1) None ?st1"
  show ?thesis
  proof (cases "strip kl = []")
    case True
    with Cons show ?thesis by (simp add: create_new_set_def py_input_def py_print_def)
  next
    case key: False
    obtain res st2 where g: "?g = (res, st2)" by (cases ?g)
    from get_int_frame [of "''Enter how many members will this set have: ''" "Some 1" None ?st1] g
    have f2: "store st2 = store st" "calls st2 = calls st" by simp_all
    show ?thesis
    proof (cases res)
      case (Inl e)
      with Cons key g f2 show ?thesis by (simp add: create_new_set_def py_input_def py_print_def)
    next
      case (Inr count)
      obtain r st3 where l: "create_new_set_loop (nat count) [] st2 = (r, st3)"
        by (cases "create_new_set_loop (nat count) [] st2")
      from create_new_set_loop_frame [of "nat count" "[]" st2] l f2
      have f3: "store st3 = store st" "calls st3 = calls st" by simp_all
      show ?thesis
      proof (cases r)
        case (Inl e)
        with Cons key g Inr l f3 show ?thesis
          by (simp add: create_new_set_def py_input_def py_print_def)
      next
        case r: (Inr mo)
        show ?thesis
        proof (cases mo)
          case None
          with Cons key g Inr l r f3 show ?thesis
            by (simp add: create_new_set_def py_input_def py_print_def)
        next
          case (Some ms)
          from g Inr get_int_Inr_run [of "''Enter how many members will this set have: ''" "Some 1" None ?st1 count st2]
          have "1 \<le> count" by (auto simp: acceptable_def)
          with create_new_set_loop_members [of "nat count" "[]" st2 ms st3] l r Some
          have ms: "[] \<notin> set ms" "ms \<noteq> []" by auto
          from Cons key g Inr l r Some f3 ms show ?thesis
            by (simp add: create_new_set_def py_input_def py_print_def r_sadd_def r_scard_def
                  db_sadd_def Let_def)
        qed
      qed
    qed
  qed
qed

lemma retrieve_set_members_calls:
  "\<exists>cs. calls (snd (retrieve_set_members st)) = calls st @ cs \<and> guarded (store st) cs \<and>
        list_all call_ok cs \<and> store (snd (retrieve_set_members st)) = store st"
proof (cases "stdin st")
  case Nil
  then show ?thesis by (simp add: retrieve_set_members_def py_input_def py_print_def)
next
  case (Cons ql ls)
  then show ?thesis
    by (simp add: retrieve_set_members_def py_input_def py_print_def Let_def r_exists_def
          r_smembers_def r_scard_def fold_print_members)
qed

lemma delete_set_calls:
  "\<exists>cs. calls (snd (delete_set st)) = calls st @ cs \<and>
        (cs = [] \<and> store (snd (delete_set st)) = store st \<or>
         (\<exists>k. k \<noteq> [] \<and> cs = [Delete k] \<and> store (snd (delete_set st)) = (store st)(k := {||})))"
proof (cases "stdin st")
  case Nil
  then show ?thesis by (simp add: delete_set_def py_input_def py_print_def)
next
  case (Cons l ls)
  then show ?thesis
    by (simp add: delete_set_def py_input_def py_print_def Let_def r_delete_def db_delete_def)
qed

lemma delete_all_data_calls:
  "\<exists>cs. calls (snd (delete_all_data st)) = calls st @ cs \<and>
        (cs = [] \<and> store (snd (delete_all_data st)) = store st \<or>
         cs = [FlushDB] \<and> store (snd (delete_all_data st)) = (\<lambda>k. {||}))"
proof (cases "stdin st")
  case Nil
  then show ?thesis by (simp add: delete_all_data_def py_input_def py_print_def)
next
  case (Cons l ls)
  then show ?thesis
    by (simp add: delete_all_data_def py_input_def py_print_def Let_def r_flushdb_def
          db_flushdb_def)
qed

text \<open>The calls of a stretch of the update sub-menu on \<open>key\<close>.\<close>

definition step_ok :: "string \<Rightarrow> state \<Rightarrow> state \<Rightarrow> bool" where
  "step_ok key st st' =
     (\<exists>cs. calls st' = calls st @ cs \<and> list_all (\<lambda>c. call_key c = Some key) cs \<and>
           ((\<forall>k. [] |\<notin>| store st k) \<longrightarrow> list_all call_ok cs \<and> (\<forall>k. [] |\<notin>| store st' k)))"

lemma step_ok_same: "calls st' = calls st \<Longrightarrow> store st' = store st \<Longrightarrow> step_ok key st st'"
  by (simp add: step_ok_def)

lemma step_ok_trans: "step_ok key st st' \<Longrightarrow> step_ok key st' st'' \<Longrightarrow> step_ok key st st''"
  unfolding step_ok_def by (elim exE conjE, rule_tac x = "cs @ csa" in exI) auto

lemma update_add_member_ok: "key \<noteq> [] \<Longrightarrow> step_ok key st (snd (update_add_member key st))"
proof (cases "stdin st")
  case Nil
  then show ?thesis by (simp add: update_add_member_def py_input_def py_print_def step_ok_def)
next
  case (Cons l ls)
  assume "key \<noteq> []"
  with Cons show ?thesis
    by (simp add: update_add_member_def py_input_def py_print_def Let_def r_sadd_def r_scard_def
          db_sadd_def step_ok_def)
qed

lemma update_remove_member_ok: "key \<noteq> [] \<Longrightarrow> step_ok key st (snd (update_remove_member key st))"
proof (cases "stdin st")
  case Nil
  then show ?thesis by (simp add: update_remove_member_def py_input_def py_print_def step_ok_def)
next
  case (Cons l ls)
  assume "key \<noteq> []"
  with Cons show ?thesis
    by (simp add: update_remove_member_def py_input_def py_print_def Let_def r_srem_def r_scard_def
          db_srem_def step_ok_def)
qed

lemma update_remove_all_ok: "key \<noteq> [] \<Longrightarrow> step_ok key st (snd (update_remove_all key st))"
  by (auto simp: update_remove_all_run step_ok_def list_all_iff)

lemma update_set_members_body_ok:
  assumes "key \<noteq> []"
  shows "step_ok key st (snd (update_set_members_body key st))"
proof -
  let ?g = "get_int ''Selection: '' (Some 1) (Some 4) (py_print Msg_update_menu st)"
  obtain res st1 where g: "?g = (res, st1)" by (cases ?g)
  from get_int_frame [of "''Selection: ''" "Some 1" "Some 4" "py_print Msg_update_menu st"] g
  have f: "step_ok key st st1" by (simp add: step_ok_same py_print_def)
  show ?thesis
  proof (cases res)
    case (Inl e)
    with g f show ?thesis by (simp add: update_set_members_body_def)
  next
    case (Inr choice)
    have "step_ok key st1 (py_print Msg_exiting_update st1)"
      by (simp add: step_ok_same py_print_def)
    with g Inr f update_add_member_ok [OF assms, of st1] update_remove_member_ok [OF assms, of st1]
      update_remove_all_ok [OF assms, of st1]
    show ?thesis
      by (auto simp: update_set_members_body_def intro: step_ok_trans)
  qed
qed

lemma update_set_members_loop_ok:
  "key \<noteq> [] \<Longrightarrow> step_ok key st (snd (update_set_members_loop key st))"
proof (induction key st rule: update_set_members_loop.induct)
  case (1 key st)
  obtain res st' where b: "update_set_members_body key st = (res, st')"
    by (cases "update_set_members_body key st")
  from update_set_members_body_ok [OF "1.prems", of st] b
  have ok: "step_ok key st st'" by simp
  show ?case
  proof (cases res)
    case (Inl e)
    with b ok show ?thesis by (simp add: update_set_members_loop.simps [where st = st])
  next
    case (Inr x)
    show ?thesis
    proof (cases x)
      case Continue
      from "1.IH" [OF b [symmetric] Inr Continue "1.prems"] ok
      have "step_ok key st (snd (update_set_members_loop key st'))" by (rule step_ok_trans [rotated])
      with b Inr Continue show ?thesis
        by (simp add: update_set_members_loop.simps [where st = st])
    next
      case Break
      with b Inr ok show ?thesis by (simp add: update_set_members_loop.simps [where st = st])
    qed
  qed
qed

lemma update_set_members_calls:
  "\<exists>cs. calls (snd (update_set_members st)) = calls st @ cs \<and> guarded (store st) cs \<and>
        ((\<forall>k. [] |\<notin>| store st k) \<longrightarrow>
           list_all call_ok cs \<and> (\<forall>k. [] |\<notin>| store (snd (update_set_members st)) k))"
proof (cases "stdin st")
  case Nil
  then show ?thesis by (simp add: update_set_members_def py_input_def py_print_def)
next
  case (Cons l ls)
  show ?thesis
  proof (cases "strip l = []")
    case True
    with Cons show ?thesis by (simp add: update_set_members_def py_input_def py_print_def)
  next
    case key: False
    let ?st2 = "st\<lparr>stdin := ls,
                   stdout := stdout st @ [Prompt ''Enter the key of the set you wish to update: ''],
                   calls := calls st @ [Exists (strip l)]\<rparr>"
    show ?thesis
    proof (cases "db_exists (store st) (strip l) = 0")
      case True
      with Cons key show ?thesis
        by (simp add: update_set_members_def py_input_def py_print_def Let_def r_exists_def)
    next
      case False
      from Cons key False
      have u: "update_set_members st = update_set_members_loop (strip l) ?st2"
        by (simp add: update_set_members_def py_input_def py_print_def Let_def r_exists_def)
      from update_set_members_loop_ok [OF key, of ?st2]
      obtain cs where cs: "calls (snd (update_set_members_loop (strip l) ?st2)) = calls ?st2 @ cs"
        and k: "list_all (\<lambda>c. call_key c = Some (strip l)) cs"
        and i: "(\<forall>k. [] |\<notin>| store st k) \<longrightarrow>
                 list_all call_ok cs \<and>
                 (\<forall>k. [] |\<notin>| store (snd (update_set_members_loop (strip l) ?st2)) k)"
        unfolding step_ok_def by auto
      show ?thesis
        using cs k i key False
        by (intro exI [of _ "Exists (strip l) # cs"]) (simp add: u)
    qed
  qed
qed

lemma nonempty_inv_retrieve: "nonempty_inv st \<Longrightarrow> nonempty_inv (snd (retrieve_set_members st))"
  using retrieve_set_members_calls [of st] by (auto simp: nonempty_inv_def)

lemma nonempty_inv_create: "nonempty_inv st \<Longrightarrow> nonempty_inv (snd (create_new_set st))"
  using create_new_set_calls [of st] by (auto simp: nonempty_inv_def fset_of_list_elem split: if_splits)

lemma nonempty_inv_update: "nonempty_inv st \<Longrightarrow> nonempty_inv (snd (update_set_members st))"
  using update_set_members_calls [of st] by (auto simp: nonempty_inv_def)

lemma nonempty_inv_delete: "nonempty_inv st \<Longrightarrow> nonempty_inv (snd (delete_set st))"
  using delete_set_calls [of st] by (auto simp: nonempty_inv_def fset_of_list_elem split: if_splits)

lemma nonempty_inv_delete_all: "nonempty_inv st \<Longrightarrow> nonempty_inv (snd (delete_all_data st))"
  using delete_all_data_calls [of st] by (auto simp: nonempty_inv_def)

lemma nonempty_inv_main_body:
  assumes "nonempty_inv st"
  shows "nonempty_inv (snd (main_body st))"
proof -
  let ?g = "get_int ''Selection: '' (Some 1) (Some 6) (py_print Msg_main_menu st)"
  obtain res st1 where g: "?g = (res, st1)" by (cases ?g)
  from get_int_frame [of "''Selection: ''" "Some 1" "Some 6" "py_print Msg_main_menu st"] g assms
  have i: "nonempty_inv st1" by (simp add: nonempty_inv_def py_print_def)
  then have "nonempty_inv (py_print Msg_exiting_program st1)"
    by (simp add: nonempty_inv_def py_print_def)
  with g i nonempty_inv_retrieve [OF i] nonempty_inv_create [OF i] nonempty_inv_update [OF i]
    nonempty_inv_delete [OF i] nonempty_inv_delete_all [OF i]
  show ?thesis
    by (cases res) (auto simp: main_body_def split: prod.splits sum.splits)
qed

lemma nonempty_inv_main_loop: "nonempty_inv st \<Longrightarrow> nonempty_inv (snd (main_loop st))"
proof (induction st rule: main_loop.induct)
  case (1 st)
  obtain res st' where b: "main_body st = (res, st')" by (cases "main_body st")
  from nonempty_inv_main_body [OF "1.prems"] b have i: "nonempty_inv st'" by simp
  show ?case
  proof (cases res)
    case (Inl e)
    with b i show ?thesis by (simp add: main_loop.simps [where st = st])
  next
    case (Inr x)
    show ?thesis
    proof (cases x)
      case Continue
      from "1.IH" [OF b [symmetric] Inr Continue i] b Inr Continue show ?thesis
        by (simp add: main_loop.simps [where st = st])
    next
      case Break
      with b Inr i show ?thesis by (simp add: main_loop.simps [where st = st])
    qed
  qed
qed

lemma nonempty_inv_main: "nonempty_inv st \<Longrightarrow> nonempty_inv (snd (main st))"
proof -
  assume i: "nonempty_inv st"
  let ?st1 = "(py_print Msg_connection_ok
                 ((py_print Msg_connecting (py_print Msg_date_time st))
                    \<lparr>calls := calls (py_print Msg_connecting (py_print Msg_date_time st)) @ [Ping]\<rparr>))"
  from i have "nonempty_inv ?st1" by (simp add: nonempty_inv_def py_print_def)
  from nonempty_inv_main_loop [OF this] i show ?thesis
    by (simp add: main_def connect_to_redis_def Let_def nonempty_inv_def py_print_def)
qed

lemma delete_set_run:
  assumes "stdin st = l # rest" and "strip l \<noteq> []"
  shows "delete_set st =
     (Inr (),
      st\<lparr>store := (store st)(strip l := {||}),
         stdin := rest,
         stdout := stdout st @
           [Prompt ''Enter the key of the set you wish to delete: '',
            if db_exists (store st) (strip l) = 1 then Msg_deleted (strip l)
            else Msg_key_not_found (strip l)],
         calls := calls st @ [Delete (strip l)]\<rparr>)"
  using assms
  by (simp add: delete_set_def py_input_def py_print_def Let_def r_delete_def db_delete_def)

text \<open>A store in which the set \<open>notes\<close> holds the empty string, put there by another client.\<close>

definition blank_member_store :: db where
  "blank_member_store = empty_store(''notes'' := {|[]|})"

text \<open>
  C2, as stated, fails twice. The delete flow sends its delete call at once, with no
  exists check before it: on a store without the key \<open>ghost\<close>, the only call of
  \<open>delete_set\<close> is the delete of \<open>ghost\<close>. And remove-all sends back to the store the
  members the store returned: where a set holds the empty string, it issues a remove
  call with the empty member.
\<close>

theorem delete_without_exists_counterexample:
  "calls (snd (delete_set (console [''ghost'']))) = [Delete ''ghost'']
   \<and> db_exists (store (console [''ghost''])) ''ghost'' = 0
   \<and> calls (snd (update_set_members (session blank_member_store [''notes'', ''3'', ''4''])))
       = [Exists ''notes'', SMembers ''notes'', SRem ''notes'' [], SCard ''notes'']"
  by code_simp

text \<open>
  C2, amended. On a store in which no set holds the empty string, no operation ever
  issues a store call with an empty key or an empty member, and the store stays so: this
  holds for the query, create, update, delete and delete-all operations and for the whole
  program. The query and update operations issue the exists check of their key as their
  first call; when it reports the key absent they issue no other call, and every further
  call is on that key. The delete operation issues at most one call, the delete of a
  non-empty key, with no exists check before it, and prints from the reply of that call
  whether the key was deleted or was not found.
\<close>

theorem operations_keep_invariants:
  "(nonempty_inv st \<longrightarrow>
      nonempty_inv (snd (retrieve_set_members st)) \<and> nonempty_inv (snd (create_new_set st)) \<and>
      nonempty_inv (snd (update_set_members st)) \<and> nonempty_inv (snd (delete_set st)) \<and>
      nonempty_inv (snd (delete_all_data st)) \<and> nonempty_inv (snd (main st)))
   \<and> (\<exists>cs. calls (snd (retrieve_set_members st)) = calls st @ cs \<and> guarded (store st) cs)
   \<and> (\<exists>cs. calls (snd (update_set_members st)) = calls st @ cs \<and> guarded (store st) cs)
   \<and> (\<exists>cs. calls (snd (delete_set st)) = calls st @ cs \<and>
            (cs = [] \<or> (\<exists>k. k \<noteq> [] \<and> cs = [Delete k])))
   \<and> (stdin st = l # rest \<and> strip l \<noteq> [] \<longrightarrow>
        delete_set st =
          (Inr (),
           st\<lparr>store := (store st)(strip l := {||}),
              stdin := rest,
              stdout := stdout st @
                [Prompt ''Enter the key of the set you wish to delete: '',
                 if db_exists (store st) (strip l) = 1 then Msg_deleted (strip l)
                 else Msg_key_not_found (strip l)],
              calls := calls st @ [Delete (strip l)]\<rparr>))"
proof (intro conjI impI)
  show "\<exists>cs. calls (snd (retrieve_set_members st)) = calls st @ cs \<and> guarded (store st) cs"
    using retrieve_set_members_calls [of st] by blast
  show "\<exists>cs. calls (snd (update_set_members st)) = calls st @ cs \<and> guarded (store st) cs"
    using update_set_members_calls [of st] by blast
  show "\<exists>cs. calls (snd (delete_set st)) = calls st @ cs \<and>
            (cs = [] \<or> (\<exists>k. k \<noteq> [] \<and> cs = [Delete k]))"
    using delete_set_calls [of st] by blast
  show "delete_set st =
          (Inr (),
           st\<lparr>store := (store st)(strip l := {||}),
              stdin := rest,
              stdout := stdout st @
                [Prompt ''Enter the key of the set you wish to delete: '',
                 if db_exists (store st) (strip l) = 1 then Msg_deleted (strip l)
                 else Msg_key_not_found (strip l)],
              calls := calls st @ [Delete (strip l)]\<rparr>)"
    if "stdin st = l # rest \<and> strip l \<noteq> []"
    using that by (intro delete_set_run) simp_all
qed (simp_all add: nonempty_inv_retrieve nonempty_inv_create nonempty_inv_update
       nonempty_inv_delete nonempty_inv_delete_all nonempty_inv_main)

theorem operations_keep_invariants_witness:
  "nonempty_inv (session two_sets_store [''3'', ''colors'', ''3'', ''4'', ''4'', ''sizes'', ''6''])
   \<and> nonempty_inv (snd (main
        (session two_sets_store [''3'', ''colors'', ''3'', ''4'', ''4'', ''sizes'', ''6''])))
   \<and> nonempty_inv (snd (update_set_members
        (session two_sets_store [''colors'', ''3'', ''4''])))
   \<and> delete_set (session two_sets_store ['' sizes '', ''6'']) =
       (Inr (),
        (session (two_sets_store(''sizes'' := {||})) [''6''])\<lparr>
           stdout := [Prompt ''Enter the key of the set you wish to delete: '',
                      Msg_deleted ''sizes''],
           calls := [Delete ''sizes'']\<rparr>)
   \<and> delete_set (session two_sets_store [''ghost'', ''6'']) =
       (Inr (),
        (session two_sets_store [''6''])\<lparr>
           stdout := [Prompt ''Enter the key of the set you wish to delete: '',
                      Msg_key_not_found ''ghost''],
           calls := [Delete ''ghost'']\<rparr>)"
proof -
  have i: "nonempty_inv (session two_sets_store ls)" for ls
    by (simp add: nonempty_inv_def session_def two_sets_store_def colors_store_def empty_store_def)
  have t: "strip '' sizes '' = ''sizes''" "strip ''ghost'' = ''ghost''"
    by (simp_all add: text_defs)
  have g: "two_sets_store(''ghost'' := {||}) = two_sets_store"
    by (rule ext) (simp add: two_sets_store_def colors_store_def empty_store_def)
  from operations_keep_invariants
         [of "session two_sets_store [''3'', ''colors'', ''3'', ''4'', ''4'', ''sizes'', ''6'']"]
       operations_keep_invariants [of "session two_sets_store [''colors'', ''3'', ''4'']"] i
  have a: "nonempty_inv (snd (main
        (session two_sets_store [''3'', ''colors'', ''3'', ''4'', ''4'', ''sizes'', ''6''])))"
    "nonempty_inv (snd (update_set_members (session two_sets_store [''colors'', ''3'', ''4''])))"
    by blast+
  from operations_keep_invariants
         [of "session two_sets_store ['' sizes '', ''6'']" "'' sizes ''" "[''6'']"] t
  have b: "delete_set (session two_sets_store ['' sizes '', ''6'']) =
       (Inr (),
        (session (two_sets_store(''sizes'' := {||})) [''6''])\<lparr>
           stdout := [Prompt ''Enter the key of the set you wish to delete: '',
                      Msg_deleted ''sizes''],
           calls := [Delete ''sizes'']\<rparr>)"
    by (simp add: session_def db_exists_def two_sets_store_def)
  from operations_keep_invariants
         [of "session two_sets_store [''ghost'', ''6'']" "''ghost''" "[''6'']"] t g
  have c: "delete_set (session two_sets_store [''ghost'', ''6'']) =
       (Inr (),
        (session two_sets_store [''6''])\<lparr>
           stdout := [Prompt ''Enter the key of the set you wish to delete: '',
                      Msg_key_not_found ''ghost''],
           calls := [Delete ''ghost'']\<rparr>)"
    by (simp add: session_def db_exists_def two_sets_store_def colors_store_def empty_store_def)
  from i a b c show ?thesis by blast
qed

section \<open>Whitespace around console lines\<close>

text \<open>
  \<open>stripped st\<close> is the state \<open>st\<close> with every line still to be read replaced by its
  stripped form. Every operation commutes with it: running on stripped input gives the
  same result, the same store, output and calls, and leaves the stripped rest of the input.
\<close>

definition stripped :: "state \<Rightarrow> state" where
  "stripped st = st\<lparr>stdin := map strip (stdin st)\<rparr>"

lemma strip_strip [simp]: "strip (strip s) = strip s"
proof -
  let ?t = "dropWhile isspace s"
  let ?u = "rev (dropWhile isspace (rev ?t))"
  have t: "?t = ?u @ rev (takeWhile isspace (rev ?t))"
    by (metis rev_append rev_rev_ident takeWhile_dropWhile_id)
  have a: "dropWhile isspace ?u = ?u"
  proof (cases "?u = []")
    case True
    then show ?thesis by (metis dropWhile.simps(1))
  next
    case False
    then have "?t \<noteq> []" by (metis dropWhile.simps(1) rev.simps(1))
    then have "\<not> isspace (hd ?t)" by (rule hd_dropWhile)
    moreover from False t have "hd ?t = hd ?u" by (metis hd_append2)
    ultimately show ?thesis by (simp add: dropWhile_eq_self_iff)
  qed
  have "strip (strip s) = rev (dropWhile isspace (rev (dropWhile isspace ?u)))"
    by (simp add: strip_def)
  also have "\<dots> = rev (dropWhile isspace (rev ?u))" by (simp only: a)
  also have "\<dots> = ?u" by simp
  finally show ?thesis by (simp add: strip_def)
qed

lemma strip_whitespace: "\<forall>c\<in>set l. isspace c \<Longrightarrow> strip l = []"
proof -
  assume "\<forall>c\<in>set l. isspace c"
  then have e: "dropWhile isspace l = []" by simp
  show ?thesis by (simp only: strip_def e rev.simps dropWhile.simps)
qed

lemma stripped_fields [simp]:
  "store (stripped st) = store st" "reachable (stripped st) = reachable st"
  "stdin (stripped st) = map strip (stdin st)" "stdout (stripped st) = stdout st"
  "calls (stripped st) = calls st"
  by (simp_all add: stripped_def)

lemma acceptable_strip [simp]:
  "acceptable mn mx (strip l) = acceptable mn mx l"
  "reject_msg mn mx (strip l) = reject_msg mn mx l"
  by (simp_all add: acceptable_def reject_msg_def)

lemma get_int_stripped: "get_int p mn mx (stripped st) = apsnd stripped (get_int p mn mx st)"
proof (induction "stdin st" arbitrary: st)
  case Nil
  then have "stdin st = []" "stdin (stripped st) = []" by simp_all
  then show ?case by (simp add: get_int_Nil py_print_def stripped_def)
next
  case (Cons l ls)
  from Cons.hyps(2) [symmetric]
  have s: "stdin st = l # ls" and s': "stdin (stripped st) = strip l # map strip ls"
    by simp_all
  show ?case
  proof (cases "acceptable mn mx l")
    case True
    then have "acceptable mn mx (strip l)" by simp
    from get_int_accept [OF s True, of p] get_int_accept [OF s' this, of p]
    show ?thesis by (simp add: stripped_def)
  next
    case False
    then have "\<not> acceptable mn mx (strip l)" by simp
    let ?st = "st\<lparr>stdin := ls, stdout := stdout st @ [Prompt p, reject_msg mn mx l]\<rparr>"
    have "get_int p mn mx (stripped st) = get_int p mn mx (stripped ?st)"
      using get_int_reject [OF s' \<open>\<not> acceptable mn mx (strip l)\<close>, of p]
      by (simp add: stripped_def)
    also have "\<dots> = apsnd stripped (get_int p mn mx ?st)"
      by (rule Cons.hyps(1)) simp
    also have "get_int p mn mx ?st = get_int p mn mx st"
      using get_int_reject [OF s False, of p] by simp
    finally show ?thesis .
  qed
qed

lemma case_apsnd_stripped:
  "(case apsnd stripped r of (a, b) \<Rightarrow> g a b) = (case r of (a, b) \<Rightarrow> g a (stripped b))"
  by (cases r) simp

lemma case_input_stripped:
  "(case py_input p (stripped st) of (Inl e, st1) \<Rightarrow> A e st1 | (Inr l, st1) \<Rightarrow> B l st1) =
   (case py_input p st of (Inl e, st1) \<Rightarrow> A e (stripped st1) | (Inr l, st1) \<Rightarrow> B (strip l) (stripped st1))"
  by (cases "stdin st") (simp_all add: py_input_def py_print_def stripped_def)

lemma stripped_print: "py_print m (stripped st) = stripped (py_print m st)"
  by (simp add: py_print_def stripped_def)

lemma stripped_calls:
  "r_exists k (stripped st) = apsnd stripped (r_exists k st)"
  "r_sadd k ms (stripped st) = apsnd stripped (r_sadd k ms st)"
  "r_srem k m (stripped st) = apsnd stripped (r_srem k m st)"
  "r_smembers k (stripped st) = apsnd stripped (r_smembers k st)"
  "r_scard k (stripped st) = apsnd stripped (r_scard k st)"
  "r_delete k (stripped st) = apsnd stripped (r_delete k st)"
  "r_flushdb (stripped st) = stripped (r_flushdb st)"
  by (simp_all add: r_exists_def r_sadd_def r_srem_def r_smembers_def r_scard_def r_delete_def
        r_flushdb_def stripped_def)

lemmas stripped_push = case_apsnd_stripped case_input_stripped stripped_print stripped_calls
  get_int_stripped

lemma delete_set_stripped: "delete_set (stripped st) = apsnd stripped (delete_set st)"
  by (simp add: delete_set_def stripped_push Let_def split: prod.splits sum.splits)

lemma delete_all_data_stripped: "delete_all_data (stripped st) = apsnd stripped (delete_all_data st)"
  by (simp add: delete_all_data_def stripped_push Let_def split: prod.splits sum.splits)

lemma fold_print_stripped:
  "fold (\<lambda>m. py_print (f m)) ms (stripped st) = stripped (fold (\<lambda>m. py_print (f m)) ms st)"
  by (induction ms arbitrary: st) (simp_all add: stripped_print)

lemma retrieve_set_members_stripped:
  "retrieve_set_members (stripped st) = apsnd stripped (retrieve_set_members st)"
  by (simp add: retrieve_set_members_def stripped_push fold_print_stripped Let_def
           split: prod.splits sum.splits)

lemma create_new_set_loop_stripped:
  "create_new_set_loop n acc (stripped st) = apsnd stripped (create_new_set_loop n acc st)"
  by (induction n arbitrary: acc st)
     (simp_all add: stripped_push Let_def split: prod.splits sum.splits)

lemma create_new_set_stripped: "create_new_set (stripped st) = apsnd stripped (create_new_set st)"
  by (simp add: create_new_set_def stripped_push create_new_set_loop_stripped Let_def
           split: prod.splits sum.splits option.splits)

lemma update_add_member_stripped:
  "update_add_member key (stripped st) = apsnd stripped (update_add_member key st)"
  by (simp add: update_add_member_def stripped_push Let_def split: prod.splits sum.splits)

lemma update_remove_member_stripped:
  "update_remove_member key (stripped st) = apsnd stripped (update_remove_member key st)"
  by (simp add: update_remove_member_def stripped_push Let_def split: prod.splits sum.splits)

lemma remove_each_stripped: "remove_each key ms (stripped st) = stripped (remove_each key ms st)"
  by (induction ms arbitrary: st) (simp_all add: stripped_push split: prod.splits)

lemma update_remove_all_stripped:
  "update_remove_all key (stripped st) = apsnd stripped (update_remove_all key st)"
  by (simp add: update_remove_all_def stripped_push remove_each_stripped Let_def
           split: prod.splits sum.splits)

lemma update_set_members_body_stripped:
  "update_set_members_body key (stripped st) = apsnd stripped (update_set_members_body key st)"
  by (simp add: update_set_members_body_def stripped_push update_add_member_stripped
        update_remove_member_stripped update_remove_all_stripped
      split: prod.splits sum.splits)

lemma update_set_members_loop_stripped:
  "update_set_members_loop key (stripped st) = apsnd stripped (update_set_members_loop key st)"
proof (induction key st rule: update_set_members_loop.induct)
  case (1 key st)
  obtain res st' where b: "update_set_members_body key st = (res, st')"
    by (cases "update_set_members_body key st")
  then have b': "update_set_members_body key (stripped st) = (res, stripped st')"
    by (simp add: update_set_members_body_stripped)
  show ?case
  proof (cases res)
    case (Inl e)
    with b b' show ?thesis
      by (simp add: update_set_members_loop.simps [where st = st]
            update_set_members_loop.simps [where st = "stripped st"])
  next
    case (Inr x)
    show ?thesis
    proof (cases x)
      case Continue
      from "1.IH" [OF b [symmetric] Inr Continue] b b' Inr Continue show ?thesis
        by (simp add: update_set_members_loop.simps [where st = st]
              update_set_members_loop.simps [where st = "stripped st"])
    next
      case Break
      with b b' Inr show ?thesis
        by (simp add: update_set_members_loop.simps [where st = st]
              update_set_members_loop.simps [where st = "stripped st"])
    qed
  qed
qed

lemma update_set_members_stripped:
  "update_set_members (stripped st) = apsnd stripped (update_set_members st)"
  by (simp add: update_set_members_def stripped_push update_set_members_loop_stripped Let_def
           split: prod.splits sum.splits)

lemma main_body_stripped: "main_body (stripped st) = apsnd stripped (main_body st)"
  by (simp add: main_body_def stripped_push retrieve_set_members_stripped create_new_set_stripped
        update_set_members_stripped delete_set_stripped delete_all_data_stripped
      split: prod.splits sum.splits)

lemma main_loop_stripped: "main_loop (stripped st) = apsnd stripped (main_loop st)"
proof (induction st rule: main_loop.induct)
  case (1 st)
  obtain res st' where b: "main_body st = (res, st')" by (cases "main_body st")
  then have b': "main_body (stripped st) = (res, stripped st')"
    by (simp add: main_body_stripped)
  show ?case
  proof (cases res)
    case (Inl e)
    with b b' show ?thesis
      by (simp add: main_loop.simps [where st = st] main_loop.simps [where st = "stripped st"])
  next
    case (Inr x)
    show ?thesis
    proof (cases x)
      case Continue
      from "1.IH" [OF b [symmetric] Inr Continue] b b' Inr Continue show ?thesis
        by (simp add: main_loop.simps [where st = st] main_loop.simps [where st = "stripped st"])
    next
      case Break
      with b b' Inr show ?thesis
        by (simp add: main_loop.simps [where st = st] main_loop.simps [where st = "stripped st"])
    qed
  qed
qed

lemma connect_to_redis_stripped:
  "connect_to_redis (stripped st) = apsnd stripped (connect_to_redis st)"
  by (simp add: connect_to_redis_def Let_def py_print_def stripped_def)

lemma main_stripped: "main (stripped st) = apsnd stripped (main st)"
  by (simp add: main_def stripped_push connect_to_redis_stripped main_loop_stripped
           split: prod.splits sum.splits)

text \<open>Two runs agree when they end alike and leave states that differ at most in the
  whitespace around the lines not yet read.\<close>

definition same_run :: "(state \<Rightarrow> (error + 'a) \<times> state) \<Rightarrow> state \<Rightarrow> state \<Rightarrow> bool" where
  "same_run f st st' = (apsnd stripped (f st) = apsnd stripped (f st'))"

lemma same_runI:
  assumes "\<And>st. f (stripped st) = apsnd stripped (f st)" and "stripped st = stripped st'"
  shows "same_run f st st'"
  unfolding same_run_def using assms(1) [of st, symmetric] assms(1) [of st'] assms(2) by simp

text \<open>
  C10. Every line read from the console is used in its stripped form only: two consoles
  whose lines agree once stripped give the same run of the whole program and of each
  operation (same result, store, output and calls), for keys, members, the confirmation
  and the integers alike. In particular a line of whitespace only is stripped to the empty
  line and is treated exactly as the empty line. What is sent to the store for a key or a
  member is the stripped line, in the delete, query, update, add-member, remove-member and
  create flows, and the confirmation is compared in its stripped form.
\<close>

theorem console_lines_are_stripped:
  "(map strip ls = map strip ls' \<longrightarrow>
      same_run main (st\<lparr>stdin := ls\<rparr>) (st\<lparr>stdin := ls'\<rparr>)
      \<and> same_run create_new_set (st\<lparr>stdin := ls\<rparr>) (st\<lparr>stdin := ls'\<rparr>)
      \<and> same_run retrieve_set_members (st\<lparr>stdin := ls\<rparr>) (st\<lparr>stdin := ls'\<rparr>)
      \<and> same_run update_set_members (st\<lparr>stdin := ls\<rparr>) (st\<lparr>stdin := ls'\<rparr>)
      \<and> same_run delete_set (st\<lparr>stdin := ls\<rparr>) (st\<lparr>stdin := ls'\<rparr>)
      \<and> same_run delete_all_data (st\<lparr>stdin := ls\<rparr>) (st\<lparr>stdin := ls'\<rparr>)
      \<and> same_run (get_int p mn mx) (st\<lparr>stdin := ls\<rparr>) (st\<lparr>stdin := ls'\<rparr>))
   \<and> ((\<forall>c\<in>set l. isspace c) \<longrightarrow>
        strip l = []
        \<and> create_new_set (st\<lparr>stdin := l # rest\<rparr>) = create_new_set (st\<lparr>stdin := [] # rest\<rparr>)
        \<and> retrieve_set_members (st\<lparr>stdin := l # rest\<rparr>) =
            retrieve_set_members (st\<lparr>stdin := [] # rest\<rparr>)
        \<and> update_set_members (st\<lparr>stdin := l # rest\<rparr>) =
            update_set_members (st\<lparr>stdin := [] # rest\<rparr>)
        \<and> delete_set (st\<lparr>stdin := l # rest\<rparr>) = delete_set (st\<lparr>stdin := [] # rest\<rparr>)
        \<and> delete_all_data (st\<lparr>stdin := l # rest\<rparr>) =
            delete_all_data (st\<lparr>stdin := [] # rest\<rparr>)
        \<and> update_add_member key (st\<lparr>stdin := l # rest\<rparr>) =
            update_add_member key (st\<lparr>stdin := [] # rest\<rparr>)
        \<and> update_remove_member key (st\<lparr>stdin := l # rest\<rparr>) =
            update_remove_member key (st\<lparr>stdin := [] # rest\<rparr>))
   \<and> (strip l \<noteq> [] \<longrightarrow>
        calls (snd (delete_set (st\<lparr>stdin := l # rest\<rparr>))) = calls st @ [Delete (strip l)]
        \<and> take (Suc (length (calls st))) (calls (snd (retrieve_set_members (st\<lparr>stdin := l # rest\<rparr>))))
            = calls st @ [Exists (strip l)]
        \<and> take (Suc (length (calls st))) (calls (snd (update_set_members (st\<lparr>stdin := l # rest\<rparr>))))
            = calls st @ [Exists (strip l)]
        \<and> calls (snd (update_add_member key (st\<lparr>stdin := l # rest\<rparr>))) =
            calls st @ [SAdd key [strip l], SCard key]
        \<and> calls (snd (update_remove_member key (st\<lparr>stdin := l # rest\<rparr>))) =
            calls st @ [SRem key (strip l), SCard key]
        \<and> calls (snd (retrieve_set_members (st\<lparr>stdin := l # rest\<rparr>))) =
            calls st @
            (if db_exists (store st) (strip l) = 0 then [Exists (strip l)]
             else [Exists (strip l), SMembers (strip l), SCard (strip l)])
        \<and> (\<exists>cs. calls (snd (update_set_members (st\<lparr>stdin := l # rest\<rparr>))) =
                   calls st @ Exists (strip l) # cs \<and>
                 list_all (\<lambda>c. call_key c = Some (strip l)) cs))
   \<and> (strip kl \<noteq> [] \<and> (\<forall>b\<in>set bad. \<not> acceptable (Some 1) None b) \<and>
       py_int (strip cl) = Some n \<and> 1 \<le> n \<and> length ms = nat n \<and> (\<forall>m\<in>set ms. strip m \<noteq> []) \<longrightarrow>
        calls (snd (create_new_set (st\<lparr>stdin := kl # bad @ cl # ms @ rest\<rparr>))) =
          calls st @ [SAdd (strip kl) (map strip ms), SCard (strip kl)]
        \<and> store (snd (create_new_set (st\<lparr>stdin := kl # bad @ cl # ms @ rest\<rparr>))) =
          (store st)(strip kl := store st (strip kl) |\<union>| fset_of_list (map strip ms)))
   \<and> delete_all_data (st\<lparr>stdin := l # rest\<rparr>) =
       (if lower (strip l) = ''y''
        then (Inr (),
              st\<lparr>store := (\<lambda>k. {||}),
                 stdin := rest,
                 stdout := stdout st @
                   [Prompt ''Are you sure you want to delete ALL data from the database? (y/n): '',
                    Msg_all_deleted],
                 calls := calls st @ [FlushDB]\<rparr>)
        else (Inr (),
              st\<lparr>stdin := rest,
                 stdout := stdout st @
                   [Prompt ''Are you sure you want to delete ALL data from the database? (y/n): '',
                    Msg_delete_canceled]\<rparr>))"
proof (intro conjI impI; (elim conjE)?)
  assume "map strip ls = map strip ls'"
  then have e: "stripped (st\<lparr>stdin := ls\<rparr>) = stripped (st\<lparr>stdin := ls'\<rparr>)"
    by (simp add: stripped_def)
  show "same_run main (st\<lparr>stdin := ls\<rparr>) (st\<lparr>stdin := ls'\<rparr>)"
    using main_stripped e by (rule same_runI)
  show "same_run create_new_set (st\<lparr>stdin := ls\<rparr>) (st\<lparr>stdin := ls'\<rparr>)"
    using create_new_set_stripped e by (rule same_runI)
  show "same_run retrieve_set_members (st\<lparr>stdin := ls\<rparr>) (st\<lparr>stdin := ls'\<rparr>)"
    using retrieve_set_members_stripped e by (rule same_runI)
  show "same_run update_set_members (st\<lparr>stdin := ls\<rparr>) (st\<lparr>stdin := ls'\<rparr>)"
    using update_set_members_stripped e by (rule same_runI)
  show "same_run delete_set (st\<lparr>stdin := ls\<rparr>) (st\<lparr>stdin := ls'\<rparr>)"
    using delete_set_stripped e by (rule same_runI)
  show "same_run delete_all_data (st\<lparr>stdin := ls\<rparr>) (st\<lparr>stdin := ls'\<rparr>)"
    using delete_all_data_stripped e by (rule same_runI)
  show "same_run (get_int p mn mx) (st\<lparr>stdin := ls\<rparr>) (st\<lparr>stdin := ls'\<rparr>)"
    using get_int_stripped e by (rule same_runI)
next
  assume "\<forall>c\<in>set l. isspace c"
  then have w: "strip l = []" by (rule strip_whitespace)
  have n: "strip [] = []" by (simp add: strip_def)
  show "strip l = []" by (rule w)
  show "create_new_set (st\<lparr>stdin := l # rest\<rparr>) = create_new_set (st\<lparr>stdin := [] # rest\<rparr>)"
    by (simp add: create_new_set_def py_input_def py_print_def w n)
  show "retrieve_set_members (st\<lparr>stdin := l # rest\<rparr>) =
        retrieve_set_members (st\<lparr>stdin := [] # rest\<rparr>)"
    by (simp add: retrieve_set_members_def py_input_def py_print_def w n)
  show "update_set_members (st\<lparr>stdin := l # rest\<rparr>) =
        update_set_members (st\<lparr>stdin := [] # rest\<rparr>)"
    by (simp add: update_set_members_def py_input_def py_print_def w n)
  show "delete_set (st\<lparr>stdin := l # rest\<rparr>) = delete_set (st\<lparr>stdin := [] # rest\<rparr>)"
    by (simp add: delete_set_def py_input_def py_print_def w n)
  show "delete_all_data (st\<lparr>stdin := l # rest\<rparr>) =
        delete_all_data (st\<lparr>stdin := [] # rest\<rparr>)"
    by (simp add: delete_all_data_def py_input_def py_print_def w n)
  show "update_add_member key (st\<lparr>stdin := l # rest\<rparr>) =
        update_add_member key (st\<lparr>stdin := [] # rest\<rparr>)"
    by (simp add: update_add_member_def py_input_def py_print_def w n)
  show "update_remove_member key (st\<lparr>stdin := l # rest\<rparr>) =
        update_remove_member key (st\<lparr>stdin := [] # rest\<rparr>)"
    by (simp add: update_remove_member_def py_input_def py_print_def w n)
next
  assume k: "strip l \<noteq> []"
  show "calls (snd (delete_set (st\<lparr>stdin := l # rest\<rparr>))) = calls st @ [Delete (strip l)]"
    using k by (simp add: delete_set_def py_input_def py_print_def Let_def r_delete_def)
  show "take (Suc (length (calls st)))
          (calls (snd (retrieve_set_members (st\<lparr>stdin := l # rest\<rparr>))))
        = calls st @ [Exists (strip l)]"
    using k
    by (simp add: retrieve_set_members_def py_input_def py_print_def Let_def r_exists_def
          r_smembers_def r_scard_def fold_print_members)
  show "calls (snd (update_add_member key (st\<lparr>stdin := l # rest\<rparr>))) =
        calls st @ [SAdd key [strip l], SCard key]"
    using k update_add_member_run [of "st\<lparr>stdin := l # rest\<rparr>" l rest key] by simp
  show "calls (snd (update_remove_member key (st\<lparr>stdin := l # rest\<rparr>))) =
        calls st @ [SRem key (strip l), SCard key]"
    using k update_remove_member_run [of "st\<lparr>stdin := l # rest\<rparr>" l rest key] by simp
  let ?st2 = "st\<lparr>stdin := rest,
                 stdout := stdout st @ [Prompt ''Enter the key of the set you wish to update: ''],
                 calls := calls st @ [Exists (strip l)]\<rparr>"
  from update_set_members_loop_ok [OF k, of ?st2]
  obtain cs where "calls (snd (update_set_members_loop (strip l) ?st2)) =
                   (calls st @ [Exists (strip l)]) @ cs"
    unfolding step_ok_def by auto
  then show "take (Suc (length (calls st)))
          (calls (snd (update_set_members (st\<lparr>stdin := l # rest\<rparr>))))
        = calls st @ [Exists (strip l)]"
    using k
    by (simp add: update_set_members_def py_input_def py_print_def Let_def r_exists_def)
  show "calls (snd (retrieve_set_members (st\<lparr>stdin := l # rest\<rparr>))) =
            calls st @
            (if db_exists (store st) (strip l) = 0 then [Exists (strip l)]
             else [Exists (strip l), SMembers (strip l), SCard (strip l)])"
    using k
    by (simp add: retrieve_set_members_def py_input_def py_print_def Let_def r_exists_def
          r_smembers_def r_scard_def fold_print_members)
  from update_set_members_calls [of "st\<lparr>stdin := l # rest\<rparr>"]
  obtain cs where cs: "calls (snd (update_set_members (st\<lparr>stdin := l # rest\<rparr>))) = calls st @ cs"
    and g: "guarded (store st) cs"
    by auto
  from update_set_members_loop_ok [OF k, of ?st2]
  obtain cs' where cs': "calls (snd (update_set_members_loop (strip l) ?st2)) =
                   (calls st @ [Exists (strip l)]) @ cs'"
    and k': "list_all (\<lambda>c. call_key c = Some (strip l)) cs'"
    unfolding step_ok_def by auto
  show "\<exists>cs. calls (snd (update_set_members (st\<lparr>stdin := l # rest\<rparr>))) =
                   calls st @ Exists (strip l) # cs \<and>
                 list_all (\<lambda>c. call_key c = Some (strip l)) cs"
  proof (cases "db_exists (store st) (strip l) = 0")
    case True
    with k show ?thesis
      by (intro exI [of _ "[]"])
         (simp add: update_set_members_def py_input_def py_print_def Let_def r_exists_def)
  next
    case False
    with k cs' k' show ?thesis
      by (intro exI [of _ cs'])
         (simp add: update_set_members_def py_input_def py_print_def Let_def r_exists_def)
  qed
next
  assume h: "strip kl \<noteq> []" "\<forall>b\<in>set bad. \<not> acceptable (Some 1) None b"
    "py_int (strip cl) = Some n" "1 \<le> n" "length ms = nat n" "\<forall>m\<in>set ms. strip m \<noteq> []"
  have s: "stdin (st\<lparr>stdin := kl # bad @ cl # ms @ rest\<rparr>) = kl # bad @ cl # ms @ rest" by simp
  from create_new_set_run [OF s h]
  show "calls (snd (create_new_set (st\<lparr>stdin := kl # bad @ cl # ms @ rest\<rparr>))) =
          calls st @ [SAdd (strip kl) (map strip ms), SCard (strip kl)]"
    and "store (snd (create_new_set (st\<lparr>stdin := kl # bad @ cl # ms @ rest\<rparr>))) =
          (store st)(strip kl := store st (strip kl) |\<union>| fset_of_list (map strip ms))"
    by simp_all
next
  show "delete_all_data (st\<lparr>stdin := l # rest\<rparr>) =
       (if lower (strip l) = ''y''
        then (Inr (),
              st\<lparr>store := (\<lambda>k. {||}),
                 stdin := rest,
                 stdout := stdout st @
                   [Prompt ''Are you sure you want to delete ALL data from the database? (y/n): '',
                    Msg_all_deleted],
                 calls := calls st @ [FlushDB]\<rparr>)
        else (Inr (),
              st\<lparr>stdin := rest,
                 stdout := stdout st @
                   [Prompt ''Are you sure you want to delete ALL data from the database? (y/n): '',
                    Msg_delete_canceled]\<rparr>))"
    by (simp add: delete_all_data_def py_input_def py_print_def Let_def r_flushdb_def
          db_flushdb_def)
qed

theorem console_lines_are_stripped_witness:
  "same_run main (console [''2 '', '' colors'', '' 1 '', ''  red  '', '' 6''])
                 (console [''2'', ''colors'', ''1'', ''red'', ''6''])
   \<and> strip ''   '' = []
   \<and> delete_set (session colors_store [''   '', ''6'']) = delete_set (session colors_store ['''', ''6''])
   \<and> calls (snd (delete_set (session colors_store [''  colors '']))) = [Delete ''colors'']
   \<and> calls (snd (create_new_set (console ['' colors'', ''x'', '' 2 '', ''  red  '', ''blue '', ''6''])))
       = [SAdd ''colors'' [''red'', ''blue''], SCard ''colors'']"
proof -
  have t: "map strip [''2 '', '' colors'', '' 1 '', ''  red  '', '' 6''] =
           map strip [''2'', ''colors'', ''1'', ''red'', ''6'']"
    "\<forall>c\<in>set ''   ''. isspace c" "strip ''  colors '' = ''colors''"
    by (simp_all add: text_defs)
  have c: "(console [])\<lparr>stdin := ls\<rparr> = console ls"
    "(session d [])\<lparr>stdin := ls\<rparr> = session d ls" for ls d
    by (simp_all add: console_def session_def)
  from console_lines_are_stripped
         [of "[''2 '', '' colors'', '' 1 '', ''  red  '', '' 6'']"
             "[''2'', ''colors'', ''1'', ''red'', ''6'']" "console []"] t(1)
  have a: "same_run main (console [''2 '', '' colors'', '' 1 '', ''  red  '', '' 6''])
                 (console [''2'', ''colors'', ''1'', ''red'', ''6''])"
    by (simp add: c)
  from console_lines_are_stripped [of _ _ "session colors_store []" _ _ _ "''   ''" "[''6'']"] t(2)
  have b: "strip ''   '' = []"
    "delete_set (session colors_store [''   '', ''6'']) = delete_set (session colors_store ['''', ''6''])"
    by (simp_all add: c)
  from console_lines_are_stripped [of _ _ "session colors_store []" _ _ _ "''  colors ''" "[]"] t(3)
  have d: "calls (snd (delete_set (session colors_store [''  colors '']))) = [Delete ''colors'']"
    by (simp add: c session_def)
  have t': "strip '' colors'' \<noteq> []" "\<forall>b\<in>set [''x'']. \<not> acceptable (Some 1) None b"
    "py_int (strip '' 2 '') = Some 2"
    "map strip [''  red  '', ''blue ''] = [''red'', ''blue'']" "strip '' colors'' = ''colors''"
    "\<forall>m\<in>set [''  red  '', ''blue '']. strip m \<noteq> []"
    by (simp_all add: text_defs)
  from console_lines_are_stripped
         [where st = "console []" and kl = "'' colors''" and bad = "[''x'']" and cl = "'' 2 ''"
            and ms = "[''  red  '', ''blue '']" and n = 2 and rest = "[''6'']"] t'
  have e: "calls (snd (create_new_set
              (console ['' colors'', ''x'', '' 2 '', ''  red  '', ''blue '', ''6''])))
       = [SAdd ''colors'' [''red'', ''blue''], SCard ''colors'']"
    by (simp add: c console_def)
  from a b d e show ?thesis by blast
qed

end
